theory Spec2Isabelle
  imports Complex_Main "HOL-Library.Word" "HOL-Library.Log_Nat" "HOL-Library.List_Lexorder"
begin

section \<open>Strings and regular expressions of the host language\<close>

text \<open>
  A JavaScript string is a sequence of 16-bit code units, and a regular expression without
  the \<open>u\<close> flag works on code units. String literals of the theory are written with
  \<open>js\<close>, which maps every character to the code unit of the same number.
\<close>

type_synonym jschar = "16 word"
type_synonym jsstring = "jschar list"

definition js :: "string \<Rightarrow> jsstring" where
  "js s = map of_char s"

text \<open>
  The character matchers the patterns of \<open>index.js\<close> use: a literal character, \<open>\d\<close>
  (\<open>0\<close> to \<open>9\<close>), \<open>\s\<close> (the white space and line terminator code points of
  ECMAScript) and \<open>.\<close> (everything but the four line terminators).
\<close>

datatype cls = Lit jschar | Digit | Space | Dot

fun accept :: "cls \<Rightarrow> jschar \<Rightarrow> bool" where
  "accept (Lit c) x = (x = c)"
| "accept Digit x = (0x30 \<le> x \<and> x \<le> 0x39)"
| "accept Space x = (x \<in> set [0x9, 0xA, 0xB, 0xC, 0xD, 0x20, 0xA0, 0x1680, 0x2000, 0x2001,
     0x2002, 0x2003, 0x2004, 0x2005, 0x2006, 0x2007, 0x2008, 0x2009, 0x200A, 0x2028, 0x2029,
     0x202F, 0x205F, 0x3000, 0xFEFF])"
| "accept Dot x = (x \<notin> set [0xA, 0xD, 0x2028, 0x2029])"

text \<open>
  The fragment of the pattern language that occurs in \<open>index.js\<close>: concatenation,
  alternation \<open>p|q\<close>, the greedy option \<open>p?\<close>, and the greedy repetitions \<open>c*\<close> and
  \<open>c+\<close> of a single character matcher. Capture groups that are never read back are
  plain parentheses here.
\<close>

datatype re = Eps | One cls | Seq re re | Alt re re | Opt re | Star cls | Plus cls

text \<open>
  The backtracking matcher: \<open>ms p s\<close> lists the rests of \<open>s\<close> after every way in which
  \<open>p\<close> matches a prefix of \<open>s\<close>, in the order in which a backtracking engine tries them
  (a greedy quantifier tries the longest repetition first, an alternation its left branch
  first).
\<close>

fun star :: "cls \<Rightarrow> jsstring \<Rightarrow> jsstring list" where
  "star c [] = [[]]"
| "star c (x # xs) = (if accept c x then star c xs else []) @ [x # xs]"

fun ms :: "re \<Rightarrow> jsstring \<Rightarrow> jsstring list" where
  "ms Eps s = [s]"
| "ms (One c) s = (case s of [] \<Rightarrow> [] | x # xs \<Rightarrow> if accept c x then [xs] else [])"
| "ms (Seq p q) s = concat (map (ms q) (ms p s))"
| "ms (Alt p q) s = ms p s @ ms q s"
| "ms (Opt p) s = ms p s @ [s]"
| "ms (Star c) s = star c s"
| "ms (Plus c) s = (case s of [] \<Rightarrow> [] | x # xs \<Rightarrow> if accept c x then star c xs else [])"

text \<open>
  \<open>RegExp.prototype.test\<close> of a pattern without flags: the match is tried at every start
  index from 0 to the length of the string, and the first success ends the search.
\<close>

fun test :: "re \<Rightarrow> jsstring \<Rightarrow> bool" where
  "test p [] = (ms p [] \<noteq> [])"
| "test p (x # xs) = (if ms p (x # xs) \<noteq> [] then True else test p xs)"

text \<open>
  \<open>RegExp.prototype.exec\<close> of a pattern \<open>(p)(q)\<close> made of two capture groups: the result
  is \<open>null\<close> (\<open>None\<close>) or the texts of group 1 and group 2 of the first success at the
  leftmost start index that has one. With \<open>r\<close> the rest after group 1 and \<open>r'\<close> the rest
  after group 2, group 1 is what \<open>s\<close> has before \<open>r\<close> and group 2 what \<open>r\<close> has before
  \<open>r'\<close>.
\<close>

definition matchAt :: "re \<Rightarrow> re \<Rightarrow> jsstring \<Rightarrow> (jsstring \<times> jsstring) option" where
  "matchAt p q s =
     (case concat (map (\<lambda>r. map (\<lambda>r'. (r, r')) (ms q r)) (ms p s)) of
        [] \<Rightarrow> None
      | (r, r') # _ \<Rightarrow> Some (take (length s - length r) s, take (length r - length r') r))"

fun exec :: "re \<Rightarrow> re \<Rightarrow> jsstring \<Rightarrow> (jsstring \<times> jsstring) option" where
  "exec p q [] = matchAt p q []"
| "exec p q (x # xs) =
     (case matchAt p q (x # xs) of Some g \<Rightarrow> Some g | None \<Rightarrow> exec p q xs)"

definition str :: "string \<Rightarrow> re" where
  "str s = foldr (\<lambda>c p. Seq (One (Lit (of_char c))) p) s Eps"

definition seqs :: "re list \<Rightarrow> re" where
  "seqs ps = foldr Seq ps Eps"

section \<open>Numbers of the host language\<close>

text \<open>
  A Number is an IEEE 754 binary64 value: not-a-number, an infinity, or a finite value,
  kept here as the rational it denotes (the two zeros are one value: no operation of
  \<open>index.js\<close> tells them apart).
\<close>

datatype jsnum = NaN | NInf | Fin rat | PInf

text \<open>\<open>ilog2 a\<close> is the exponent \<open>k\<close> with \<open>2^k \<le> a < 2^(k+1)\<close>, for a positive \<open>a\<close>.\<close>

definition ilog2 :: "rat \<Rightarrow> int" where
  "ilog2 a =
     (let (p, q) = quotient_of a;
          k = int (floorlog 2 (nat p)) - int (floorlog 2 (nat q))
      in if 2 powi k \<le> a then k else k - 1)"

definition roundEven :: "rat \<Rightarrow> int" where
  "roundEven a =
     (let f = \<lfloor>a\<rfloor>; d = a - of_int f
      in if d < 1 / 2 then f else if 1 / 2 < d then f + 1 else if even f then f else f + 1)"

text \<open>
  Rounding a rational to the nearest binary64 value, ties to even: 53 significant bits, the
  least exponent \<open>-1074\<close> of the subnormal range, and overflow to an infinity from
  \<open>2^1024\<close> on.
\<close>

definition toDouble :: "rat \<Rightarrow> jsnum" where
  "toDouble a =
     (if a = 0 then Fin 0
      else let e = max (ilog2 \<bar>a\<bar> - 52) (- 1074);
               r = of_int (roundEven (\<bar>a\<bar> / 2 powi e)) * 2 powi e
           in if 2 ^ 1024 \<le> r then (if 0 < a then PInf else NInf)
              else Fin (if 0 < a then r else - r))"

text \<open>\<open>Number.MAX_VALUE\<close>.\<close>

definition maxValue :: jsnum where
  "maxValue = Fin ((2 ^ 53 - 1) * 2 ^ 971)"

text \<open>The product of two Numbers.\<close>

fun numSign :: "jsnum \<Rightarrow> rat" where
  "numSign NaN = 0"
| "numSign NInf = - 1"
| "numSign PInf = 1"
| "numSign (Fin a) = sgn a"

fun numMul :: "jsnum \<Rightarrow> jsnum \<Rightarrow> jsnum" where
  "numMul NaN y = NaN"
| "numMul x NaN = NaN"
| "numMul (Fin a) (Fin b) = toDouble (a * b)"
| "numMul x y =
     (if numSign x * numSign y = 0 then NaN
      else if 0 < numSign x * numSign y then PInf else NInf)"

text \<open>The comparisons \<open><\<close> and \<open>===\<close> of two Numbers; every comparison with NaN is false.\<close>

fun numLt :: "jsnum \<Rightarrow> jsnum \<Rightarrow> bool" where
  "numLt NaN y = False"
| "numLt x NaN = False"
| "numLt x NInf = False"
| "numLt NInf y = True"
| "numLt PInf y = False"
| "numLt x PInf = True"
| "numLt (Fin a) (Fin b) = (a < b)"

fun numEq :: "jsnum \<Rightarrow> jsnum \<Rightarrow> bool" where
  "numEq NaN y = False"
| "numEq x NaN = False"
| "numEq x y = (x = y)"

text \<open>
  \<open>parseFloat\<close> on a text made of an optional minus sign, digits, and an optional point
  with digits: the decimal value, rounded. With no digit at all the result is NaN. (The
  exponent part, the plus sign, leading white space and \<open>Infinity\<close> of the full grammar
  cannot occur in group 1 of the length pattern, the only argument \<open>index.js\<close> passes.
  ECMAScript lets an engine round a text of more than 20 significant digits less exactly;
  the rounding here is exact, as it is in V8.)
\<close>

definition digitVal :: "jschar \<Rightarrow> nat" where
  "digitVal x = unat x - 48"

definition digitsVal :: "jsstring \<Rightarrow> nat" where
  "digitsVal ds = foldl (\<lambda>n x. 10 * n + digitVal x) 0 ds"

definition parseFloat :: "jsstring \<Rightarrow> jsnum" where
  "parseFloat t =
     (let neg = (t \<noteq> [] \<and> hd t = 0x2D);
          u = (if neg then tl t else t);
          ip = takeWhile (accept Digit) u;
          v = dropWhile (accept Digit) u;
          fp = (if v \<noteq> [] \<and> hd v = 0x2E then takeWhile (accept Digit) (tl v) else []);
          a = of_nat (digitsVal ip) + of_nat (digitsVal fp) / 10 ^ length fp
      in if ip = [] \<and> fp = [] then NaN else toDouble (if neg then - a else a))"


section \<open>The patterns and the classifiers\<close>

text \<open>
  \<^verbatim>\<open>minMaxWidth = /(!?\(\s*min(-device-)?-width).+\(\s*max(-device)?-width/\<close>:
  the optional device part of the minimum is \<open>-device-\<close> in this pattern, with a second
  hyphen, and \<open>-device\<close> in the seven other places.
\<close>

definition minMaxWidth :: re where
  "minMaxWidth = seqs [Opt (str ''!''), str ''('', Star Space, str ''min'',
     Opt (str ''-device-''), str ''-width'', Plus Dot,
     str ''('', Star Space, str ''max'', Opt (str ''-device''), str ''-width'']"

definition minWidth :: re where
  "minWidth = seqs [str ''('', Star Space, str ''min'', Opt (str ''-device''), str ''-width'']"

definition maxMinWidth :: re where
  "maxMinWidth = seqs [Opt (str ''!''), str ''('', Star Space, str ''max'',
     Opt (str ''-device''), str ''-width'', Plus Dot,
     str ''('', Star Space, str ''min'', Opt (str ''-device''), str ''-width'']"

definition maxWidth :: re where
  "maxWidth = seqs [str ''('', Star Space, str ''max'', Opt (str ''-device''), str ''-width'']"

definition minMaxHeight :: re where
  "minMaxHeight = seqs [Opt (str ''!''), str ''('', Star Space, str ''min'',
     Opt (str ''-device''), str ''-height'', Plus Dot,
     str ''('', Star Space, str ''max'', Opt (str ''-device''), str ''-height'']"

definition minHeight :: re where
  "minHeight = seqs [str ''('', Star Space, str ''min'', Opt (str ''-device''), str ''-height'']"

definition maxMinHeight :: re where
  "maxMinHeight = seqs [Opt (str ''!''), str ''('', Star Space, str ''max'',
     Opt (str ''-device''), str ''-height'', Plus Dot,
     str ''('', Star Space, str ''min'', Opt (str ''-device''), str ''-height'']"

definition maxHeight :: re where
  "maxHeight = seqs [str ''('', Star Space, str ''max'', Opt (str ''-device''), str ''-height'']"

definition testQuery :: "re \<Rightarrow> re \<Rightarrow> re \<Rightarrow> jsstring \<Rightarrow> bool" where
  "testQuery doubleTestTrue doubleTestFalse singleTest query =
     (if test doubleTestTrue query then True
      else if test doubleTestFalse query then False
      else test singleTest query)"

definition isMinWidth :: "jsstring \<Rightarrow> bool" where
  "isMinWidth = testQuery minMaxWidth maxMinWidth minWidth"

definition isMaxWidth :: "jsstring \<Rightarrow> bool" where
  "isMaxWidth = testQuery maxMinWidth minMaxWidth maxWidth"

definition isMinHeight :: "jsstring \<Rightarrow> bool" where
  "isMinHeight = testQuery minMaxHeight maxMinHeight minHeight"

definition isMaxHeight :: "jsstring \<Rightarrow> bool" where
  "isMaxHeight = testQuery maxMinHeight minMaxHeight maxHeight"

section \<open>The length of a query\<close>

text \<open>
  \<^verbatim>\<open>/(-?\d*\.?\d+)(ch|em|ex|px|rem)/\<close>: group 1 is \<open>lengthNumber\<close>, group 2 is
  \<open>lengthUnit\<close>.
\<close>

definition lengthNumber :: re where
  "lengthNumber = seqs [Opt (str ''-''), Star Digit, Opt (str ''.''), Plus Digit]"

definition lengthUnit :: re where
  "lengthUnit = Alt (str ''ch'') (Alt (str ''em'') (Alt (str ''ex'') (Alt (str ''px'') (str ''rem''))))"

text \<open>
  A value that \<open>getQueryLength\<close> returns: a Number, or the text of group 1 itself where
  no case of the \<open>switch\<close> is taken. The two constants \<open>8.8984375\<close> and \<open>8.296875\<close>
  are binary64 values as they stand. (The parameter is called \<open>length\<close> in \<open>index.js\<close>.)
\<close>

datatype jsval = Num jsnum | Str jsstring

definition getQueryLength :: "jsstring \<Rightarrow> jsval" where
  "getQueryLength query =
     (case exec lengthNumber lengthUnit query of
        None \<Rightarrow> Num maxValue
      | Some (num, unit) \<Rightarrow>
          if unit = js ''ch'' then Num (numMul (parseFloat num) (Fin 8.8984375))
          else if unit = js ''em'' \<or> unit = js ''rem'' then Num (numMul (parseFloat num) (Fin 16))
          else if unit = js ''ex'' then Num (numMul (parseFloat num) (Fin 8.296875))
          else if unit = js ''px'' then Num (parseFloat num)
          else Str num)"

section \<open>The comparators\<close>

text \<open>
  The operators \<open>===\<close>, \<open><\<close> and \<open>></\<close> on the values above. Two texts are compared
  by their code units; otherwise both sides are converted to Numbers (for a text of group
  1 the conversion is the one \<open>parseFloat\<close> makes).
\<close>

fun strictEq :: "jsval \<Rightarrow> jsval \<Rightarrow> bool" where
  "strictEq (Num x) (Num y) = numEq x y"
| "strictEq (Str s) (Str t) = (s = t)"
| "strictEq x y = False"

fun toNumber :: "jsval \<Rightarrow> jsnum" where
  "toNumber (Num x) = x"
| "toNumber (Str s) = parseFloat s"

fun jsLt :: "jsval \<Rightarrow> jsval \<Rightarrow> bool" where
  "jsLt (Str s) (Str t) = (s < t)"
| "jsLt x y = numLt (toNumber x) (toNumber y)"

definition jsGt :: "jsval \<Rightarrow> jsval \<Rightarrow> bool" where
  "jsGt x y = jsLt y x"

text \<open>
  \<open>String.prototype.localeCompare\<close> belongs to the host and depends on its locale: the
  comparators take it as the parameter \<open>localeCompare\<close>.
\<close>

definition sortCSSmq :: "(jsstring \<Rightarrow> jsstring \<Rightarrow> int) \<Rightarrow> jsstring \<Rightarrow> jsstring \<Rightarrow> int" where
  "sortCSSmq localeCompare a b =
     (let minA = (isMinWidth a \<or> isMinHeight a);
          maxA = (isMaxWidth a \<or> isMaxHeight a);
          minB = (isMinWidth b \<or> isMinHeight b);
          maxB = (isMaxWidth b \<or> isMaxHeight b)
      in if minA \<and> maxB then - 1
         else if maxA \<and> minB then 1
         else let lengthA = getQueryLength a;
                  lengthB = getQueryLength b
              in if strictEq lengthA (Num maxValue) \<and> strictEq lengthB (Num maxValue)
                 then localeCompare a b
                 else if strictEq lengthA (Num maxValue) then 1
                 else if strictEq lengthB (Num maxValue) then - 1
                 else if jsGt lengthA lengthB then (if maxA then - 1 else 1)
                 else if jsLt lengthA lengthB then (if maxA then 1 else - 1)
                 else localeCompare a b)"

definition desktopFirst :: "(jsstring \<Rightarrow> jsstring \<Rightarrow> int) \<Rightarrow> jsstring \<Rightarrow> jsstring \<Rightarrow> int" where
  "desktopFirst localeCompare a b =
     (let minA = (isMinWidth a \<or> isMinHeight a);
          maxA = (isMaxWidth a \<or> isMaxHeight a);
          minB = (isMinWidth b \<or> isMinHeight b);
          maxB = (isMaxWidth b \<or> isMaxHeight b)
      in if minA \<and> maxB then 1
         else if maxA \<and> minB then - 1
         else let lengthA = getQueryLength a;
                  lengthB = getQueryLength b
              in if strictEq lengthA (Num maxValue) \<and> strictEq lengthB (Num maxValue)
                 then localeCompare a b
                 else if strictEq lengthA (Num maxValue) then 1
                 else if strictEq lengthB (Num maxValue) then - 1
                 else if jsGt lengthA lengthB then (if maxA then - 1 else 1)
                 else if jsLt lengthA lengthB then (if maxA then 1 else - 1)
                 else - localeCompare a b)"

text \<open>A comparison to put in the place of \<open>localeCompare\<close> in examples: the order of code units.\<close>

definition codeUnitCompare :: "jsstring \<Rightarrow> jsstring \<Rightarrow> int" where
  "codeUnitCompare a b = (if a < b then - 1 else if b < a then 1 else 0)"

section \<open>The languages of the patterns\<close>

text \<open>The set of texts that a pattern matches in full.\<close>

fun lang :: "re \<Rightarrow> jsstring set" where
  "lang Eps = {[]}"
| "lang (One c) = {[x] | x. accept c x}"
| "lang (Seq p q) = {u @ v | u v. u \<in> lang p \<and> v \<in> lang q}"
| "lang (Alt p q) = lang p \<union> lang q"
| "lang (Opt p) = insert [] (lang p)"
| "lang (Star c) = {w. list_all (accept c) w}"
| "lang (Plus c) = {w. w \<noteq> [] \<and> list_all (accept c) w}"

text \<open>A pattern occurs in a string when some substring belongs to its language.\<close>

definition occurs :: "re \<Rightarrow> jsstring \<Rightarrow> bool" where
  "occurs p s = (\<exists>pre m post. s = pre @ m @ post \<and> m \<in> lang p)"

text \<open>
  \<open>noEarlier p q s n\<close>: the patterns \<open>p\<close> and \<open>q\<close> match one after the other at no
  start index of \<open>s\<close> below \<open>n\<close>.
\<close>

definition noEarlier :: "re \<Rightarrow> re \<Rightarrow> jsstring \<Rightarrow> nat \<Rightarrow> bool" where
  "noEarlier p q s n =
     (\<forall>pre m1 m2 post. s = pre @ m1 @ m2 @ post \<and> m1 \<in> lang p \<and> m2 \<in> lang q \<longrightarrow> n \<le> length pre)"


section \<open>The words of the specification\<close>

text \<open>
  The words of the specification for the length extractor: a number is an optional minus
  sign, digits, an optional point and at least one digit; a unit is one of five names; a
  pair stands at index \<open>i\<close> of a string when the string has, from \<open>i\<close> on, a number
  immediately followed by a unit.
\<close>

definition isNumberText :: "jsstring \<Rightarrow> bool" where
  "isNumberText n =
     (\<exists>sgn ip pt fp. n = sgn @ ip @ pt @ fp \<and> (sgn = [] \<or> sgn = js ''-'') \<and>
        list_all (accept Digit) ip \<and> (pt = [] \<or> pt = js ''.'') \<and>
        fp \<noteq> [] \<and> list_all (accept Digit) fp)"

definition unitNames :: "jsstring list" where
  "unitNames = [js ''ch'', js ''em'', js ''ex'', js ''px'', js ''rem'']"

definition pairAt :: "jsstring \<Rightarrow> nat \<Rightarrow> jsstring \<Rightarrow> jsstring \<Rightarrow> bool" where
  "pairAt s i num unit =
     (\<exists>pre post. s = pre @ num @ unit @ post \<and> length pre = i \<and>
        isNumberText num \<and> unit \<in> set unitNames)"

definition hasLengthPair :: "jsstring \<Rightarrow> bool" where
  "hasLengthPair s = (\<exists>i num unit. pairAt s i num unit)"

definition firstPair :: "jsstring \<Rightarrow> nat \<Rightarrow> jsstring \<Rightarrow> jsstring \<Rightarrow> bool" where
  "firstPair s i num unit =
     (pairAt s i num unit \<and> (\<forall>j n u. pairAt s j n u \<longrightarrow> i \<le> j))"

definition unitFactor :: "jsstring \<Rightarrow> rat" where
  "unitFactor unit =
     (if unit = js ''px'' then 1
      else if unit = js ''em'' \<or> unit = js ''rem'' then 16
      else if unit = js ''ex'' then 8.296875
      else if unit = js ''ch'' then 8.8984375
      else 0)"


text \<open>
  The replacement of every device-prefixed feature name by its counterpart without the
  prefix, from left to right.
\<close>

function undevice :: "jsstring \<Rightarrow> jsstring" where
  "undevice [] = []"
| "undevice (x # xs) =
     (if take 16 (x # xs) = js ''min-device-width'' then js ''min-width'' @ undevice (drop 15 xs)
      else if take 16 (x # xs) = js ''max-device-width'' then js ''max-width'' @ undevice (drop 15 xs)
      else if take 17 (x # xs) = js ''min-device-height'' then js ''min-height'' @ undevice (drop 16 xs)
      else if take 17 (x # xs) = js ''max-device-height'' then js ''max-height'' @ undevice (drop 16 xs)
      else x # undevice xs)"
  by pat_completeness auto
termination
  by (relation "measure length") auto


text \<open>
  Names for the conditions that the comparators test, in their order: the two priority
  checks, the sentinel length, and the tie-break that ends with \<open>localeCompare\<close>.
\<close>

abbreviation minBound :: "jsstring \<Rightarrow> bool" where
  "minBound a \<equiv> isMinWidth a \<or> isMinHeight a"

abbreviation maxBound :: "jsstring \<Rightarrow> bool" where
  "maxBound a \<equiv> isMaxWidth a \<or> isMaxHeight a"

definition priorityDecides :: "jsstring \<Rightarrow> jsstring \<Rightarrow> bool" where
  "priorityDecides a b = (minBound a \<and> maxBound b \<or> maxBound a \<and> minBound b)"

definition unmeasurable :: "jsstring \<Rightarrow> bool" where
  "unmeasurable a = strictEq (getQueryLength a) (Num maxValue)"

definition tieBreakDecides :: "jsstring \<Rightarrow> jsstring \<Rightarrow> bool" where
  "tieBreakDecides a b =
     (\<not> priorityDecides a b \<and> \<not> unmeasurable a \<and> \<not> unmeasurable b \<and>
      \<not> jsGt (getQueryLength a) (getQueryLength b) \<and>
      \<not> jsLt (getQueryLength a) (getQueryLength b))"

definition bothUnmeasurable :: "jsstring \<Rightarrow> jsstring \<Rightarrow> bool" where
  "bothUnmeasurable a b = (\<not> priorityDecides a b \<and> unmeasurable a \<and> unmeasurable b)"


section \<open>The matcher and the languages\<close>

text \<open>The rests that the matcher lists are those after a prefix in the language.\<close>

lemma star_set: "set (star c s) = {r. \<exists>m. s = m @ r \<and> list_all (accept c) m}"
proof (induction s)
  case Nil
  show ?case by auto
next
  case (Cons x xs)
  show ?case
  proof (rule set_eqI)
    fix r
    have "r \<in> set (star c (x # xs)) \<longleftrightarrow> (accept c x \<and> r \<in> set (star c xs)) \<or> r = x # xs"
      by auto
    also have "\<dots> \<longleftrightarrow> (accept c x \<and> (\<exists>m. xs = m @ r \<and> list_all (accept c) m)) \<or> r = x # xs"
      by (simp add: Cons.IH)
    also have "\<dots> \<longleftrightarrow> (\<exists>m. x # xs = m @ r \<and> list_all (accept c) m)"
    proof
      assume "(accept c x \<and> (\<exists>m. xs = m @ r \<and> list_all (accept c) m)) \<or> r = x # xs"
      then show "\<exists>m. x # xs = m @ r \<and> list_all (accept c) m"
      proof
        assume "accept c x \<and> (\<exists>m. xs = m @ r \<and> list_all (accept c) m)"
        then obtain m where "accept c x" "xs = m @ r" "list_all (accept c) m" by blast
        then have "x # xs = (x # m) @ r \<and> list_all (accept c) (x # m)" by simp
        then show ?thesis by blast
      next
        assume "r = x # xs"
        then have "x # xs = [] @ r \<and> list_all (accept c) []" by simp
        then show ?thesis by blast
      qed
    next
      assume "\<exists>m. x # xs = m @ r \<and> list_all (accept c) m"
      then obtain m where m: "x # xs = m @ r" "list_all (accept c) m" by blast
      show "(accept c x \<and> (\<exists>m. xs = m @ r \<and> list_all (accept c) m)) \<or> r = x # xs"
      proof (cases m)
        case Nil
        with m show ?thesis by simp
      next
        case (Cons y ys)
        with m show ?thesis by auto
      qed
    qed
    finally show "r \<in> set (star c (x # xs)) \<longleftrightarrow> r \<in> {r. \<exists>m. x # xs = m @ r \<and> list_all (accept c) m}"
      by simp
  qed
qed

lemma ms_set: "set (ms p s) = {r. \<exists>m. s = m @ r \<and> m \<in> lang p}"
proof (induction p arbitrary: s)
  case Eps
  show ?case by auto
next
  case (One c)
  show ?case by (cases s) auto
next
  case (Seq p q)
  show ?case
  proof (rule set_eqI)
    fix r
    have "r \<in> set (ms (Seq p q) s) \<longleftrightarrow> (\<exists>r1. r1 \<in> set (ms p s) \<and> r \<in> set (ms q r1))"
      by auto
    also have "\<dots> \<longleftrightarrow> (\<exists>m1 m2. s = (m1 @ m2) @ r \<and> m1 \<in> lang p \<and> m2 \<in> lang q)"
      unfolding Seq.IH by auto
    also have "\<dots> \<longleftrightarrow> r \<in> {r. \<exists>m. s = m @ r \<and> m \<in> lang (Seq p q)}"
      by fastforce
    finally show "r \<in> set (ms (Seq p q) s) \<longleftrightarrow> r \<in> {r. \<exists>m. s = m @ r \<and> m \<in> lang (Seq p q)}" .
  qed
next
  case (Alt p q)
  show ?case by (auto simp: Alt.IH)
next
  case (Opt p)
  show ?case by (auto simp: Opt.IH)
next
  case (Star c)
  show ?case by (simp add: star_set)
next
  case (Plus c)
  show ?case
  proof (cases s)
    case Nil
    then show ?thesis by auto
  next
    case (Cons x xs)
    show ?thesis
    proof (rule set_eqI)
      fix r
      have "r \<in> set (ms (Plus c) s) \<longleftrightarrow> accept c x \<and> (\<exists>m. xs = m @ r \<and> list_all (accept c) m)"
        using Cons by (simp add: star_set)
      also have "\<dots> \<longleftrightarrow> (\<exists>m. s = m @ r \<and> m \<noteq> [] \<and> list_all (accept c) m)"
      proof
        assume "accept c x \<and> (\<exists>m. xs = m @ r \<and> list_all (accept c) m)"
        then obtain m where "accept c x" "xs = m @ r" "list_all (accept c) m" by blast
        then have "s = (x # m) @ r \<and> x # m \<noteq> [] \<and> list_all (accept c) (x # m)" using Cons by simp
        then show "\<exists>m. s = m @ r \<and> m \<noteq> [] \<and> list_all (accept c) m" by blast
      next
        assume "\<exists>m. s = m @ r \<and> m \<noteq> [] \<and> list_all (accept c) m"
        then obtain m where m: "s = m @ r" "m \<noteq> []" "list_all (accept c) m" by blast
        then obtain y ys where "m = y # ys" by (cases m) auto
        with m Cons show "accept c x \<and> (\<exists>m. xs = m @ r \<and> list_all (accept c) m)" by auto
      qed
      finally show "r \<in> set (ms (Plus c) s) \<longleftrightarrow> r \<in> {r. \<exists>m. s = m @ r \<and> m \<in> lang (Plus c)}"
        by simp
    qed
  qed
qed

lemma ms_empty_iff: "ms p s = [] \<longleftrightarrow> \<not> (\<exists>m r. s = m @ r \<and> m \<in> lang p)"
proof -
  have "ms p s = [] \<longleftrightarrow> set (ms p s) = {}" by simp
  also have "\<dots> \<longleftrightarrow> \<not> (\<exists>m r. s = m @ r \<and> m \<in> lang p)" unfolding ms_set by auto
  finally show ?thesis .
qed

text \<open>\<open>test\<close> finds a pattern exactly where it occurs.\<close>

lemma test_iff: "test p s \<longleftrightarrow> occurs p s"
  unfolding occurs_def
proof (induction s)
  case Nil
  show ?case by (auto simp: ms_empty_iff)
next
  case (Cons x xs)
  show ?case
  proof
    assume "test p (x # xs)"
    then consider "ms p (x # xs) \<noteq> []" | "test p xs" by (auto split: if_splits)
    then show "\<exists>pre m post. x # xs = pre @ m @ post \<and> m \<in> lang p"
    proof cases
      case 1
      then obtain m r where "x # xs = m @ r" "m \<in> lang p" by (auto simp: ms_empty_iff)
      then have "x # xs = [] @ m @ r \<and> m \<in> lang p" by simp
      then show ?thesis by blast
    next
      case 2
      then obtain pre m post where "xs = pre @ m @ post" "m \<in> lang p" using Cons.IH by blast
      then have "x # xs = (x # pre) @ m @ post \<and> m \<in> lang p" by simp
      then show ?thesis by blast
    qed
  next
    assume "\<exists>pre m post. x # xs = pre @ m @ post \<and> m \<in> lang p"
    then obtain pre m post where *: "x # xs = pre @ m @ post" "m \<in> lang p" by blast
    show "test p (x # xs)"
    proof (cases pre)
      case Nil
      with * have "ms p (x # xs) \<noteq> []" by (auto simp: ms_empty_iff)
      then show ?thesis by simp
    next
      case (Cons y ys)
      with * have "xs = ys @ m @ post" by simp
      with * have "test p xs" using Cons.IH by blast
      then show ?thesis by simp
    qed
  qed
qed

text \<open>What \<open>exec\<close> finds at one index.\<close>

lemma matchAt_None: "matchAt p q s = None \<longleftrightarrow> \<not> (\<exists>m1 m2 r. s = m1 @ m2 @ r \<and> m1 \<in> lang p \<and> m2 \<in> lang q)"
proof -
  define L where "L = concat (map (\<lambda>r. map (\<lambda>r'. (r, r')) (ms q r)) (ms p s))"
  have "matchAt p q s = None \<longleftrightarrow> L = []"
    unfolding matchAt_def L_def[symmetric] by (cases L) (auto split: prod.splits)
  also have "\<dots> \<longleftrightarrow> set L = {}" by simp
  also have "set L = {(r, r'). r \<in> set (ms p s) \<and> r' \<in> set (ms q r)}"
    unfolding L_def by auto
  also have "\<dots> = {} \<longleftrightarrow> \<not> (\<exists>m1 m2 r. s = m1 @ m2 @ r \<and> m1 \<in> lang p \<and> m2 \<in> lang q)"
    unfolding ms_set by auto
  finally show ?thesis .
qed

lemma matchAt_Some:
  assumes "matchAt p q s = Some (g1, g2)"
  shows "\<exists>r. s = g1 @ g2 @ r \<and> g1 \<in> lang p \<and> g2 \<in> lang q"
proof -
  define L where "L = concat (map (\<lambda>r. map (\<lambda>r'. (r, r')) (ms q r)) (ms p s))"
  from assms obtain r r' rest where L: "L = (r, r') # rest"
    and g: "g1 = take (length s - length r) s" "g2 = take (length r - length r') r"
    unfolding matchAt_def L_def[symmetric] by (cases L) (auto split: prod.splits)
  have "(r, r') \<in> set L" unfolding L by simp
  then have "r \<in> set (ms p s)" "r' \<in> set (ms q r)" unfolding L_def by auto
  then obtain m1 m2 where m: "s = m1 @ r" "m1 \<in> lang p" "r = m2 @ r'" "m2 \<in> lang q"
    unfolding ms_set by auto
  have "g1 = m1" using g(1) m(1) by simp
  moreover have "g2 = m2" using g(2) m(3) by simp
  ultimately have "s = g1 @ g2 @ r' \<and> g1 \<in> lang p \<and> g2 \<in> lang q" using m by simp
  then show ?thesis by blast
qed

lemma noEarlier_0: "noEarlier p q s 0"
  by (simp add: noEarlier_def)

lemma noEarlier_Cons:
  assumes none: "matchAt p q (x # xs) = None" and ih: "noEarlier p q xs n"
  shows "noEarlier p q (x # xs) (Suc n)"
  unfolding noEarlier_def
proof (intro allI impI)
  fix pre m1 m2 post
  assume a: "x # xs = pre @ m1 @ m2 @ post \<and> m1 \<in> lang p \<and> m2 \<in> lang q"
  show "Suc n \<le> length pre"
  proof (cases pre)
    case Nil
    with a none show ?thesis unfolding matchAt_None by auto
  next
    case (Cons y ys)
    with a have "xs = ys @ m1 @ m2 @ post \<and> m1 \<in> lang p \<and> m2 \<in> lang q" by simp
    with ih have "n \<le> length ys" unfolding noEarlier_def by blast
    with Cons show ?thesis by simp
  qed
qed

text \<open>
  The pair of groups that \<open>exec\<close> returns starts at the least index at which the two
  patterns match one after the other.
\<close>

lemma exec_Some:
  assumes "exec p q s = Some (g1, g2)"
  shows "\<exists>pre post. s = pre @ g1 @ g2 @ post \<and> g1 \<in> lang p \<and> g2 \<in> lang q \<and>
           noEarlier p q s (length pre)"
  using assms
proof (induction s)
  case Nil
  then have "matchAt p q [] = Some (g1, g2)" by simp
  from matchAt_Some[OF this] obtain r where "[] = [] @ g1 @ g2 @ r \<and> g1 \<in> lang p \<and> g2 \<in> lang q"
    by auto
  moreover have "noEarlier p q [] (length ([]::jsstring))" by (simp add: noEarlier_0)
  ultimately show ?case by blast
next
  case (Cons x xs)
  show ?case
  proof (cases "matchAt p q (x # xs)")
    case (Some g)
    with Cons.prems have "matchAt p q (x # xs) = Some (g1, g2)" by simp
    from matchAt_Some[OF this] obtain r where "x # xs = [] @ g1 @ g2 @ r \<and> g1 \<in> lang p \<and> g2 \<in> lang q"
      by auto
    moreover have "noEarlier p q (x # xs) (length ([]::jsstring))" by (simp add: noEarlier_0)
    ultimately show ?thesis by blast
  next
    case None
    with Cons.prems have "exec p q xs = Some (g1, g2)" by simp
    from Cons.IH[OF this] obtain pre post where pp: "xs = pre @ g1 @ g2 @ post" "g1 \<in> lang p" "g2 \<in> lang q"
      and least: "noEarlier p q xs (length pre)" by blast
    have "noEarlier p q (x # xs) (length (x # pre))"
      using noEarlier_Cons[OF None least] by simp
    moreover have "x # xs = (x # pre) @ g1 @ g2 @ post" using pp by simp
    ultimately show ?thesis using pp by blast
  qed
qed

lemma exec_None: "exec p q s = None \<longleftrightarrow> \<not> (\<exists>pre m1 m2 post. s = pre @ m1 @ m2 @ post \<and> m1 \<in> lang p \<and> m2 \<in> lang q)"
proof (induction s)
  case Nil
  show ?case by (auto simp: matchAt_None)
next
  case (Cons x xs)
  show ?case
  proof
    assume "exec p q (x # xs) = None"
    then have n: "matchAt p q (x # xs) = None" "exec p q xs = None" by (auto split: option.splits)
    show "\<not> (\<exists>pre m1 m2 post. x # xs = pre @ m1 @ m2 @ post \<and> m1 \<in> lang p \<and> m2 \<in> lang q)"
    proof
      assume "\<exists>pre m1 m2 post. x # xs = pre @ m1 @ m2 @ post \<and> m1 \<in> lang p \<and> m2 \<in> lang q"
      then obtain pre m1 m2 post where a: "x # xs = pre @ m1 @ m2 @ post" "m1 \<in> lang p" "m2 \<in> lang q" by blast
      show False
      proof (cases pre)
        case Nil
        with a n(1) show False unfolding matchAt_None by auto
      next
        case (Cons y ys)
        with a have "xs = ys @ m1 @ m2 @ post" by simp
        with a n(2) show False unfolding Cons.IH by blast
      qed
    qed
  next
    assume a: "\<not> (\<exists>pre m1 m2 post. x # xs = pre @ m1 @ m2 @ post \<and> m1 \<in> lang p \<and> m2 \<in> lang q)"
    have "matchAt p q (x # xs) = None" unfolding matchAt_None
    proof
      assume "\<exists>m1 m2 r. x # xs = m1 @ m2 @ r \<and> m1 \<in> lang p \<and> m2 \<in> lang q"
      then obtain m1 m2 r where "x # xs = [] @ m1 @ m2 @ r \<and> m1 \<in> lang p \<and> m2 \<in> lang q" by auto
      with a show False by blast
    qed
    moreover have "exec p q xs = None" unfolding Cons.IH
    proof
      assume "\<exists>pre m1 m2 post. xs = pre @ m1 @ m2 @ post \<and> m1 \<in> lang p \<and> m2 \<in> lang q"
      then obtain pre m1 m2 post where "x # xs = (x # pre) @ m1 @ m2 @ post \<and> m1 \<in> lang p \<and> m2 \<in> lang q" by auto
      with a show False by blast
    qed
    ultimately show "exec p q (x # xs) = None" by simp
  qed
qed


section \<open>Rounding\<close>

lemma ilog2_bounds:
  assumes "0 < a"
  shows "2 powi (ilog2 a) \<le> a" and "a < 2 powi (ilog2 a + 1)"
proof -
  obtain p q where pq: "quotient_of a = (p, q)" by force
  have q: "0 < q" using quotient_of_denom_pos[OF pq] .
  have a: "a = of_int p / of_int q" using quotient_of_div[OF pq] .
  have p: "0 < p" using assms q unfolding a by (simp add: zero_less_divide_iff)
  define bp where "bp = floorlog 2 (nat p)"
  define bq where "bq = floorlog 2 (nat q)"
  define k where "k = int bp - int bq"
  have bp: "2 ^ (bp - 1) \<le> nat p" "nat p < 2 ^ bp"
    using floorlog_bounds[of "nat p" 2] p unfolding bp_def by auto
  have bq: "2 ^ (bq - 1) \<le> nat q" "nat q < 2 ^ bq"
    using floorlog_bounds[of "nat q" 2] q unfolding bq_def by auto
  have bp1: "1 \<le> bp" using p unfolding bp_def by (simp add: Suc_le_eq floorlog_eq_zero_iff[THEN iffD1] floorlog_def)
  have bq1: "1 \<le> bq" using q unfolding bq_def by (simp add: Suc_le_eq floorlog_def)
  have pr: "(2::rat) ^ (bp - 1) \<le> of_int p" "of_int p < (2::rat) ^ bp"
  proof -
    have "(of_nat (2 ^ (bp - 1)) :: rat) \<le> of_nat (nat p)" using bp(1) by (simp only: of_nat_le_iff)
    then show "(2::rat) ^ (bp - 1) \<le> of_int p" using p by simp
    have "(of_nat (nat p) :: rat) < of_nat (2 ^ bp)" using bp(2) by (simp only: of_nat_less_iff)
    then show "of_int p < (2::rat) ^ bp" using p by simp
  qed
  have qr: "(2::rat) ^ (bq - 1) \<le> of_int q" "of_int q < (2::rat) ^ bq"
  proof -
    have "(of_nat (2 ^ (bq - 1)) :: rat) \<le> of_nat (nat q)" using bq(1) by (simp only: of_nat_le_iff)
    then show "(2::rat) ^ (bq - 1) \<le> of_int q" using q by simp
    have "(of_nat (nat q) :: rat) < of_nat (2 ^ bq)" using bq(2) by (simp only: of_nat_less_iff)
    then show "of_int q < (2::rat) ^ bq" using q by simp
  qed
  have qpos: "(0::rat) < of_int q" using q by simp
  have ppos: "(0::rat) < of_int p" using p by simp
  have up: "a < 2 powi (k + 1)"
  proof -
    have "k + 1 = int bp - int (bq - 1)" using bq1 unfolding k_def by simp
    then have e: "(2::rat) powi (k + 1) = 2 ^ bp / 2 ^ (bq - 1)"
      by (simp add: power_int_diff)
    have "a < 2 ^ bp / of_int q" unfolding a using pr(2) qpos by (simp add: divide_strict_right_mono)
    also have "\<dots> \<le> 2 ^ bp / 2 ^ (bq - 1)" using qr(1) by (simp add: frac_le)
    finally show ?thesis unfolding e .
  qed
  have lo: "2 powi (k - 1) \<le> a"
  proof -
    have "k - 1 = int (bp - 1) - int bq" using bp1 unfolding k_def by simp
    then have e: "(2::rat) powi (k - 1) = 2 ^ (bp - 1) / 2 ^ bq"
      by (simp add: power_int_diff)
    have "(2::rat) ^ (bp - 1) / 2 ^ bq \<le> 2 ^ (bp - 1) / of_int q" using qr(2) qpos by (simp add: frac_le)
    also have "\<dots> \<le> a" unfolding a using pr(1) qpos by (simp add: divide_right_mono)
    finally show ?thesis unfolding e .
  qed
  have il: "ilog2 a = (if 2 powi k \<le> a then k else k - 1)"
    unfolding ilog2_def pq k_def bp_def bq_def by (simp add: Let_def)
  show "2 powi (ilog2 a) \<le> a" unfolding il using lo by simp
  show "a < 2 powi (ilog2 a + 1)" unfolding il using up by (simp add: not_le)
qed


lemma powi_less_imp_less: "(2::rat) powi m < 2 powi n \<Longrightarrow> m < n"
proof (rule ccontr)
  assume a: "(2::rat) powi m < 2 powi n" and "\<not> m < n"
  then have "n \<le> m" by simp
  then have "(2::rat) powi n \<le> 2 powi m" by (intro power_int_increasing) auto
  with a show False by simp
qed

lemma roundEven_of_int: "roundEven (of_int n) = n"
  by (simp add: roundEven_def)

lemma roundEven_bounds: "\<lfloor>a\<rfloor> \<le> roundEven a" "roundEven a \<le> \<lfloor>a\<rfloor> + 1"
  by (simp_all add: roundEven_def Let_def)

lemma toDouble_not_NaN: "toDouble a \<noteq> NaN"
  by (simp add: toDouble_def Let_def)

lemma toDouble_exact_pos:
  assumes m: "0 < m" "m < 2 ^ 53" and e: "- 1074 \<le> e"
    and fin: "of_int m * 2 powi e < (2::rat) ^ 1024"
  shows "toDouble (of_int m * 2 powi e) = Fin (of_int m * 2 powi e)"
proof -
  define a :: rat where "a = of_int m * 2 powi e"
  have apos: "0 < a" unfolding a_def using m(1) by (simp add: zero_less_mult_iff)
  define k where "k = ilog2 a"
  define e' where "e' = max (k - 52) (- 1074)"
  have "2 powi k \<le> a" unfolding k_def using ilog2_bounds(1)[OF apos] .
  also have "a < 2 ^ 53 * 2 powi e"
  proof -
    have "(of_int m :: rat) < of_int (2 ^ 53)" using m(2) by (simp only: of_int_less_iff)
    then have "(of_int m :: rat) < 2 ^ 53" by simp
    then show ?thesis unfolding a_def by (simp add: mult_strict_right_mono)
  qed
  also have "(2::rat) ^ 53 * 2 powi e = 2 powi (53 + e)"
    by (simp add: power_int_add)
  finally have "k < 53 + e" by (rule powi_less_imp_less)
  then have le: "e' \<le> e" unfolding e'_def using e by simp
  have "a / 2 powi e' = of_int m * (2 powi e / 2 powi e')" unfolding a_def by simp
  also have "2 powi e / 2 powi e' = (2::rat) powi (e - e')" by (simp add: power_int_diff)
  also have "\<dots> = 2 ^ nat (e - e')" using le by (simp add: power_int_def)
  finally have q: "a / 2 powi e' = of_int (m * 2 ^ nat (e - e'))" by simp
  have r: "of_int (roundEven (a / 2 powi e')) * 2 powi e' = a"
    unfolding q roundEven_of_int unfolding q[symmetric] by simp
  have "toDouble a = Fin a"
    using apos fin r unfolding toDouble_def k_def[symmetric] e'_def[symmetric] a_def[symmetric]
    by (simp add: Let_def k_def[symmetric] e'_def[symmetric])
  then show ?thesis unfolding a_def .
qed

lemma toDouble_of_nat:
  assumes "n < 2 ^ 53"
  shows "toDouble (of_nat n) = Fin (of_nat n)"
proof (cases "n = 0")
  case True
  then show ?thesis by (simp add: toDouble_def)
next
  case False
  have 1: "0 < int n" using False by simp
  have 2: "int n < 2 ^ 53" using assms by (metis of_nat_less_iff of_nat_numeral of_nat_power)
  have "(of_int (int n) :: rat) < of_int (2 ^ 53)" using 2 by (simp only: of_int_less_iff)
  also have "\<dots> < 2 ^ 1024" by simp
  finally have 3: "of_int (int n) * 2 powi 0 < (2::rat) ^ 1024" by simp
  from toDouble_exact_pos[OF 1 2 _ 3] show ?thesis by simp
qed

lemma toDouble_minus:
  "toDouble (- a) = (case toDouble a of Fin r \<Rightarrow> Fin (- r) | PInf \<Rightarrow> NInf | NInf \<Rightarrow> PInf | NaN \<Rightarrow> NaN)"
  by (cases "a = 0"; cases "0 < a") (auto simp: toDouble_def Let_def)

text \<open>Rounding a second time changes nothing.\<close>

lemma toDouble_fixed_pos:
  assumes "0 < a" and "toDouble a = Fin r"
  shows "toDouble r = Fin r"
proof -
  define k where "k = ilog2 a"
  define e where "e = max (k - 52) (- 1074)"
  define n where "n = roundEven (a / 2 powi e)"
  have abs: "\<bar>a\<bar> = a" using assms(1) by simp
  have td: "toDouble a = (if (2::rat) ^ 1024 \<le> of_int n * 2 powi e then PInf else Fin (of_int n * 2 powi e))"
    using assms(1) unfolding toDouble_def abs k_def[symmetric] Let_def e_def[symmetric] n_def[symmetric]
    by simp
  with assms(2) have fin: "of_int n * 2 powi e < (2::rat) ^ 1024" and r: "r = of_int n * 2 powi e"
    by (auto split: if_splits)
  have e: "- 1074 \<le> e" "k - 52 \<le> e" unfolding e_def by simp_all
  have x0: "0 \<le> a / 2 powi e" using assms(1) by simp
  have "a < 2 powi (k + 1)" unfolding k_def using ilog2_bounds(2)[OF assms(1)] .
  also have "\<dots> \<le> 2 powi (53 + e)" using e(2) by (intro power_int_increasing) auto
  also have "\<dots> = 2 ^ 53 * 2 powi e" by (simp add: power_int_add)
  finally have "a / 2 powi e < 2 ^ 53" by (simp add: pos_divide_less_eq)
  then have "a / 2 powi e < of_int (2 ^ 53)" by simp
  then have "\<lfloor>a / 2 powi e\<rfloor> < 2 ^ 53" by (simp only: floor_less_iff)
  then have nle: "n \<le> 2 ^ 53" unfolding n_def using roundEven_bounds(2)[of "a / 2 powi e"]
    by linarith
  have "0 \<le> \<lfloor>a / 2 powi e\<rfloor>" using x0 by (simp only: zero_le_floor)
  then have n0: "0 \<le> n" unfolding n_def using roundEven_bounds(1)[of "a / 2 powi e"]
    by linarith
  consider "n = 0" | "0 < n" "n < 2 ^ 53" | "n = 2 ^ 53" using n0 nle by force
  then show ?thesis
  proof cases
    case 1
    then show ?thesis unfolding r by (simp add: toDouble_def)
  next
    case 2
    from toDouble_exact_pos[OF 2 e(1) fin] show ?thesis unfolding r .
  next
    case 3
    have eq: "of_int n * 2 powi e = of_int (2 ^ 52) * (2::rat) powi (e + 1)"
      unfolding 3 by (simp add: power_int_add)
    have "toDouble (of_int (2 ^ 52) * 2 powi (e + 1)) = Fin (of_int (2 ^ 52) * 2 powi (e + 1))"
    proof (rule toDouble_exact_pos)
      show "(0::int) < 2 ^ 52" by simp
      show "(2::int) ^ 52 < 2 ^ 53" by simp
      show "- 1074 \<le> e + 1" using e(1) by simp
      show "of_int (2 ^ 52) * 2 powi (e + 1) < (2::rat) ^ 1024" using fin unfolding eq .
    qed
    then show ?thesis unfolding r eq .
  qed
qed

lemma toDouble_fixed:
  assumes "toDouble a = Fin r"
  shows "toDouble r = Fin r"
proof -
  consider "a = 0" | "0 < a" | "a < 0" by force
  then show ?thesis
  proof cases
    case 1
    with assms show ?thesis by (simp add: toDouble_def)
  next
    case 2
    from toDouble_fixed_pos[OF 2 assms] show ?thesis .
  next
    case 3
    then have p: "0 < - a" by simp
    from assms have "toDouble (- a) = Fin (- r)" by (simp add: toDouble_minus)
    from toDouble_fixed_pos[OF p this] have "toDouble (- r) = Fin (- r)" .
    then have "toDouble (- (- r)) = Fin (- (- r))" by (subst toDouble_minus) simp
    then show ?thesis by simp
  qed
qed

text \<open>Multiplying a rounded value by one leaves it as it is.\<close>

lemma numMul_one: "numMul (toDouble a) (Fin 1) = toDouble a"
proof (cases "toDouble a")
  case (Fin r)
  with toDouble_fixed[OF Fin] show ?thesis by simp
qed simp_all

text \<open>Rounding a given value: the exponent and the nearest integer are enough.\<close>

lemma ilog2_eq:
  assumes "0 < a" and "2 powi k \<le> a" and "a < 2 powi (k + 1)"
  shows "ilog2 a = k"
proof -
  have "2 powi (ilog2 a) < (2::rat) powi (k + 1)"
    using ilog2_bounds(1)[OF assms(1)] assms(3) by simp
  then have 1: "ilog2 a < k + 1" by (rule powi_less_imp_less)
  have "2 powi k < (2::rat) powi (ilog2 a + 1)"
    using ilog2_bounds(2)[OF assms(1)] assms(2) by simp
  then have 2: "k < ilog2 a + 1" by (rule powi_less_imp_less)
  from 1 2 show ?thesis by simp
qed

lemma roundEven_near:
  assumes "of_int n - 1 / 2 < a" and "a < of_int n + 1 / 2"
  shows "roundEven a = n"
proof (cases "of_int n \<le> a")
  case True
  then have "\<lfloor>a\<rfloor> = n" using assms(2) by (intro floor_unique) auto
  then show ?thesis using assms(2) by (simp add: roundEven_def Let_def)
next
  case False
  then have "\<lfloor>a\<rfloor> = n - 1" using assms(1) by (intro floor_unique) auto
  then show ?thesis using assms(1) by (simp add: roundEven_def Let_def)
qed

lemma toDouble_near:
  assumes "0 < a" and "2 powi k \<le> a" and "a < 2 powi (k + 1)"
    and "e = max (k - 52) (- 1074)"
    and "of_int n - 1 / 2 < a / 2 powi e" and "a / 2 powi e < of_int n + 1 / 2"
    and "of_int n * 2 powi e < (2::rat) ^ 1024"
  shows "toDouble a = Fin (of_int n * 2 powi e)"
proof -
  have k: "ilog2 a = k" using assms(1-3) by (rule ilog2_eq)
  have abs: "\<bar>a\<bar> = a" using assms(1) by simp
  have r: "roundEven (a / 2 powi e) = n" using assms(5,6) by (rule roundEven_near)
  show ?thesis
    unfolding toDouble_def abs k Let_def assms(4)[symmetric] r using assms(1,7) by simp
qed

lemma toDouble_tenth: "toDouble (1 / 10) = Fin (3602879701896397 / 36028797018963968)"
  using toDouble_near [of "1 / 10" "- 4" "- 56" 7205759403792794] by simp


section \<open>The length extractor and the pairs of a string\<close>

lemma lang_str_Cons: "lang (str (c # cs)) = {of_char c # w | w. w \<in> lang (str cs)}"
  by (auto simp: str_def)

lemma lang_str: "lang (str cs) = {js cs}"
proof (induction cs)
  case Nil
  show ?case by (simp add: str_def js_def)
next
  case (Cons c cs)
  then show ?case by (simp add: lang_str_Cons js_def)
qed

lemma lang_lengthUnit: "lang lengthUnit = set unitNames"
  by (auto simp: lengthUnit_def unitNames_def lang_str)

lemma lang_seqs_Cons: "lang (seqs (p # ps)) = {u @ v | u v. u \<in> lang p \<and> v \<in> lang (seqs ps)}"
  by (simp add: seqs_def)

lemma lang_seqs_Nil: "lang (seqs []) = {[]}"
  by (simp add: seqs_def)

lemma lang_lengthNumber: "n \<in> lang lengthNumber \<longleftrightarrow> isNumberText n"
proof
  assume "n \<in> lang lengthNumber"
  then obtain sgn ip pt fp where "n = sgn @ ip @ pt @ fp" "sgn \<in> lang (Opt (str ''-''))"
    "ip \<in> lang (Star Digit)" "pt \<in> lang (Opt (str ''.''))" "fp \<in> lang (Plus Digit)"
    unfolding lengthNumber_def lang_seqs_Cons lang_seqs_Nil by auto
  then show "isNumberText n"
    unfolding isNumberText_def by (auto simp: lang_str)
next
  assume "isNumberText n"
  then obtain sgn ip pt fp where "n = sgn @ ip @ pt @ fp" "sgn = [] \<or> sgn = js ''-''"
    "list_all (accept Digit) ip" "pt = [] \<or> pt = js ''.''" "fp \<noteq> []" "list_all (accept Digit) fp"
    unfolding isNumberText_def by blast
  then have "n = sgn @ ip @ pt @ fp @ []" "sgn \<in> lang (Opt (str ''-''))"
    "ip \<in> lang (Star Digit)" "pt \<in> lang (Opt (str ''.''))" "fp \<in> lang (Plus Digit)"
    by (auto simp: lang_str)
  then show "n \<in> lang lengthNumber"
    unfolding lengthNumber_def lang_seqs_Cons lang_seqs_Nil by blast
qed

lemma pairAt_iff:
  "pairAt s i num unit \<longleftrightarrow>
     (\<exists>pre post. s = pre @ num @ unit @ post \<and> length pre = i \<and>
        num \<in> lang lengthNumber \<and> unit \<in> lang lengthUnit)"
  by (simp add: pairAt_def lang_lengthNumber lang_lengthUnit)

lemma exec_length_None: "exec lengthNumber lengthUnit s = None \<longleftrightarrow> \<not> hasLengthPair s"
  unfolding exec_None hasLengthPair_def pairAt_iff by blast

lemma exec_length_Some:
  assumes "exec lengthNumber lengthUnit s = Some (num, unit)"
  shows "\<exists>i. firstPair s i num unit"
proof -
  from exec_Some[OF assms] obtain pre post where
    *: "s = pre @ num @ unit @ post" "num \<in> lang lengthNumber" "unit \<in> lang lengthUnit"
    "noEarlier lengthNumber lengthUnit s (length pre)" by blast
  then have "pairAt s (length pre) num unit" unfolding pairAt_iff by blast
  moreover have "\<forall>j n u. pairAt s j n u \<longrightarrow> length pre \<le> j"
    using *(4) unfolding pairAt_iff noEarlier_def by blast
  ultimately show ?thesis unfolding firstPair_def by blast
qed

lemma js_minus: "js ''-'' = [0x2D]" and js_point: "js ''.'' = [0x2E]"
  by (simp_all add: js_def)

lemma digit_not_sign: "accept Digit x \<Longrightarrow> x \<noteq> 0x2D \<and> x \<noteq> 0x2E"
  by auto

lemma takeWhile_all: "list_all P xs \<Longrightarrow> takeWhile P (xs @ ys) = xs @ takeWhile P ys"
  by (induction xs) auto

lemma takeWhile_all_self: "list_all P xs \<Longrightarrow> takeWhile P xs = xs"
  by (induction xs) auto

lemma dropWhile_all: "list_all P xs \<Longrightarrow> dropWhile P (xs @ ys) = dropWhile P ys"
  by (induction xs) auto

lemma parseFloat_number:
  assumes "isNumberText n"
  shows "parseFloat n \<noteq> NaN"
proof -
  from assms obtain sgn d1 pt d2 where n: "n = sgn @ d1 @ pt @ d2"
    and sgn: "sgn = [] \<or> sgn = [0x2D]" and d1: "list_all (accept Digit) d1"
    and pt: "pt = [] \<or> pt = [0x2E]" and d2: "d2 \<noteq> []" "list_all (accept Digit) d2"
    unfolding isNumberText_def js_minus js_point by blast
  define u where "u = d1 @ pt @ d2"
  obtain y ys where y: "d2 = y # ys" using d2(1) by (cases d2) auto
  have hd_u: "u \<noteq> [] \<and> hd u \<noteq> 0x2D"
  proof (cases d1)
    case Nil
    then show ?thesis using pt d2(2) y unfolding u_def by auto
  next
    case (Cons z zs)
    then show ?thesis using d1 unfolding u_def by auto
  qed
  have strip: "(if n \<noteq> [] \<and> hd n = 0x2D then tl n else n) = u"
    using sgn hd_u unfolding n u_def[symmetric] by auto
  have parts: "takeWhile (accept Digit) u \<noteq> [] \<or>
      (dropWhile (accept Digit) u \<noteq> [] \<and> hd (dropWhile (accept Digit) u) = 0x2E \<and>
       takeWhile (accept Digit) (tl (dropWhile (accept Digit) u)) \<noteq> [])"
  proof -
    from pt show ?thesis
    proof
      assume "pt = []"
      then have "list_all (accept Digit) u" and "u \<noteq> []" using d1 d2 unfolding u_def by auto
      from takeWhile_all_self[OF this(1)] have tw: "takeWhile (accept Digit) u = u" .
      show ?thesis unfolding tw using \<open>u \<noteq> []\<close> by blast
    next
      assume p: "pt = [0x2E]"
      have dw: "dropWhile (accept Digit) u = 0x2E # d2"
        unfolding u_def p using dropWhile_all[OF d1] by simp
      have tw: "takeWhile (accept Digit) d2 = d2" using d2(2) by (rule takeWhile_all_self)
      have "tl (dropWhile (accept Digit) u) = d2" "hd (dropWhile (accept Digit) u) = 0x2E"
        "dropWhile (accept Digit) u \<noteq> []" unfolding dw by simp_all
      then show ?thesis unfolding tw using d2(1) by (simp only: tw) blast
    qed
  qed
  show ?thesis
    unfolding parseFloat_def Let_def strip using parts by (auto simp: toDouble_not_NaN)
qed

lemma parseFloat_rounded: "parseFloat t = NaN \<or> (\<exists>a. parseFloat t = toDouble a)"
proof -
  have *: "\<And>c x. (if c then NaN else toDouble x) = NaN \<or>
      (\<exists>a. (if c then NaN else toDouble x) = toDouble a)" by auto
  show ?thesis unfolding parseFloat_def Let_def by (rule *)
qed

lemma numMul_parseFloat_one: "numMul (parseFloat t) (Fin 1) = parseFloat t"
  using parseFloat_rounded[of t] by (auto simp: numMul_one)

lemma numMul_not_NaN: "x \<noteq> NaN \<Longrightarrow> 0 < c \<Longrightarrow> numMul x (Fin c) \<noteq> NaN"
  by (cases x) (auto simp: toDouble_not_NaN)

text \<open>At one index there is at most one pair.\<close>

lemma number_chars:
  assumes "isNumberText n"
  shows "list_all (\<lambda>x. x = 0x2D \<or> x = 0x2E \<or> accept Digit x) n"
proof -
  from assms obtain sgn d1 pt d2 where n: "n = sgn @ d1 @ pt @ d2"
    and sgn: "sgn = [] \<or> sgn = [0x2D]" and d1: "list_all (accept Digit) d1"
    and pt: "pt = [] \<or> pt = [0x2E]" and d2: "list_all (accept Digit) d2"
    unfolding isNumberText_def js_minus js_point by blast
  show ?thesis unfolding n using sgn d1 pt d2 by (auto simp: list_all_iff)
qed

lemma unit_cases:
  assumes "u \<in> set unitNames"
  shows "u = js ''ch'' \<or> u = js ''em'' \<or> u = js ''ex'' \<or> u = js ''px'' \<or> u = js ''rem''"
  using assms by (auto simp: unitNames_def)

lemma unit_head:
  assumes "u \<in> set unitNames"
  shows "\<exists>c cs. u = c # cs \<and> \<not> (c = 0x2D \<or> c = 0x2E \<or> accept Digit c)"
  using unit_cases[OF assms] by (auto simp: js_def)

lemma unit_prefix_unique:
  assumes "u \<in> set unitNames" "u' \<in> set unitNames" "u @ post = u' @ post'"
  shows "u = u'"
  using unit_cases[OF assms(1)] unit_cases[OF assms(2)] assms(3) by (auto simp: js_def)

lemma pair_unique:
  assumes eq: "n @ u @ post = n' @ u' @ post'"
    and n: "isNumberText n" "isNumberText n'" and u: "u \<in> set unitNames" "u' \<in> set unitNames"
  shows "n = n' \<and> u = u'"
proof -
  let ?P = "\<lambda>x. x = 0x2D \<or> x = 0x2E \<or> accept Digit x"
  obtain c cs where c: "u = c # cs" "\<not> ?P c" using unit_head[OF u(1)] by blast
  obtain c' cs' where c': "u' = c' # cs'" "\<not> ?P c'" using unit_head[OF u(2)] by blast
  have "takeWhile ?P (n @ u @ post) = n"
    using takeWhile_all[OF number_chars[OF n(1)], of "u @ post"] c by simp
  moreover have "takeWhile ?P (n' @ u' @ post') = n'"
    using takeWhile_all[OF number_chars[OF n(2)], of "u' @ post'"] c' by simp
  ultimately have nn: "n = n'" using eq by simp
  with eq have "u @ post = u' @ post'" by simp
  from unit_prefix_unique[OF u this] nn show ?thesis by simp
qed

lemma firstPair_unique:
  assumes "firstPair s i n u" and "firstPair s j n' u'"
  shows "i = j \<and> n = n' \<and> u = u'"
proof -
  from assms have ij: "i = j" unfolding firstPair_def by (meson le_antisym)
  from assms(1) obtain pre post where 1: "s = pre @ n @ u @ post" "length pre = i"
    "isNumberText n" "u \<in> set unitNames" unfolding firstPair_def pairAt_def by blast
  from assms(2) obtain pre' post' where 2: "s = pre' @ n' @ u' @ post'" "length pre' = j"
    "isNumberText n'" "u' \<in> set unitNames" unfolding firstPair_def pairAt_def by blast
  have "pre @ (n @ u @ post) = pre' @ (n' @ u' @ post')" using 1(1) 2(1) by simp
  then have "n @ u @ post = n' @ u' @ post'" using 1(2) 2(2) ij by simp
  from pair_unique[OF this 1(3) 2(3) 1(4) 2(4)] ij show ?thesis by simp
qed

lemma hasLengthPair_first:
  assumes "hasLengthPair s"
  shows "\<exists>i num unit. firstPair s i num unit"
proof -
  from assms have "exec lengthNumber lengthUnit s \<noteq> None" by (simp add: exec_length_None)
  then obtain num unit where "exec lengthNumber lengthUnit s = Some (num, unit)" by auto
  from exec_length_Some[OF this] show ?thesis by blast
qed

text \<open>What \<open>getQueryLength\<close> returns, by the result of \<open>exec\<close>.\<close>

lemma convert_unit:
  assumes "unit \<in> set unitNames"
  shows "(if unit = js ''ch'' then Num (numMul (parseFloat num) (Fin 8.8984375))
          else if unit = js ''em'' \<or> unit = js ''rem'' then Num (numMul (parseFloat num) (Fin 16))
          else if unit = js ''ex'' then Num (numMul (parseFloat num) (Fin 8.296875))
          else if unit = js ''px'' then Num (parseFloat num)
          else Str num) = Num (numMul (parseFloat num) (Fin (unitFactor unit)))"
  using unit_cases[OF assms] by (auto simp: unitFactor_def numMul_parseFloat_one js_def)

lemma getQueryLength_Some:
  assumes "exec lengthNumber lengthUnit s = Some (num, unit)"
  shows "getQueryLength s = Num (numMul (parseFloat num) (Fin (unitFactor unit)))"
proof -
  from exec_length_Some[OF assms] have "unit \<in> set unitNames"
    unfolding firstPair_def pairAt_def by blast
  from convert_unit[OF this] show ?thesis unfolding getQueryLength_def assms by simp
qed

lemma getQueryLength_firstPair:
  assumes "firstPair s i num unit"
  shows "getQueryLength s = Num (numMul (parseFloat num) (Fin (unitFactor unit)))"
proof -
  from assms have "hasLengthPair s" unfolding firstPair_def hasLengthPair_def by blast
  then have "exec lengthNumber lengthUnit s \<noteq> None" by (simp add: exec_length_None)
  then obtain g1 g2 where g: "exec lengthNumber lengthUnit s = Some (g1, g2)" by auto
  from exec_length_Some[OF g] obtain j where "firstPair s j g1 g2" by blast
  from firstPair_unique[OF this assms] have "g1 = num" "g2 = unit" by simp_all
  with getQueryLength_Some[OF g] show ?thesis by simp
qed

lemma unitFactor_pos: "unit \<in> set unitNames \<Longrightarrow> 0 < unitFactor unit"
  by (auto simp: unitNames_def unitFactor_def js_def)

text \<open>\<open>getQueryLength\<close> always returns a Number, and never NaN.\<close>

lemma getQueryLength_number: "\<exists>x. getQueryLength s = Num x \<and> x \<noteq> NaN"
proof (cases "exec lengthNumber lengthUnit s")
  case None
  then show ?thesis by (simp add: getQueryLength_def maxValue_def)
next
  case (Some g)
  obtain num unit where g: "g = (num, unit)" by (cases g)
  from exec_length_Some[OF Some[unfolded g]] have "isNumberText num" "unit \<in> set unitNames"
    unfolding firstPair_def pairAt_def by blast+
  then have "numMul (parseFloat num) (Fin (unitFactor unit)) \<noteq> NaN"
    by (intro numMul_not_NaN parseFloat_number unitFactor_pos)
  with getQueryLength_Some[OF Some[unfolded g]] show ?thesis by simp
qed

section \<open>The comparisons of lengths\<close>

lemma numLt_asym: "numLt x y \<Longrightarrow> \<not> numLt y x"
  by (cases x; cases y) auto

lemma jsLt_asym: "jsLt x y \<Longrightarrow> \<not> jsLt y x"
  by (cases x; cases y) (auto dest: numLt_asym)

lemma num_trichotomy: "x \<noteq> NaN \<Longrightarrow> y \<noteq> NaN \<Longrightarrow> numLt x y \<or> numLt y x \<or> numEq x y"
  by (cases x; cases y) auto

lemma length_trichotomy:
  "jsLt (getQueryLength a) (getQueryLength b) \<or> jsLt (getQueryLength b) (getQueryLength a) \<or>
   strictEq (getQueryLength a) (getQueryLength b)"
proof -
  obtain x where x: "getQueryLength a = Num x" "x \<noteq> NaN" using getQueryLength_number by blast
  obtain y where y: "getQueryLength b = Num y" "y \<noteq> NaN" using getQueryLength_number by blast
  show ?thesis unfolding x y using num_trichotomy[OF x(2) y(2)] by simp
qed

lemma numEq_not_numLt: "numEq x y \<Longrightarrow> \<not> numLt x y \<and> \<not> numLt y x"
  by (cases x; cases y) auto

lemma strictEq_not_jsLt: "strictEq x y \<Longrightarrow> \<not> jsLt x y \<and> \<not> jsLt y x"
  by (cases x; cases y) (auto dest: numEq_not_numLt)

lemma numEq_sym: "numEq x y = numEq y x"
  by (cases x; cases y) auto

lemma strictEq_sym: "strictEq x y = strictEq y x"
  by (cases x; cases y) (auto simp: numEq_sym)

lemma strictEq_trans_length:
  "strictEq (getQueryLength a) m \<Longrightarrow> strictEq (getQueryLength b) m \<Longrightarrow>
   strictEq (getQueryLength a) (getQueryLength b)"
proof -
  assume 1: "strictEq (getQueryLength a) m" and 2: "strictEq (getQueryLength b) m"
  obtain x where x: "getQueryLength a = Num x" "x \<noteq> NaN" using getQueryLength_number by blast
  obtain y where y: "getQueryLength b = Num y" "y \<noteq> NaN" using getQueryLength_number by blast
  from 1 2 show ?thesis unfolding x y by (cases m; cases x; cases y; cases "toNumber m") auto
qed

text \<open>The comparators, branch by branch.\<close>

lemma sortCSSmq_cases:
  "sortCSSmq lc a b =
     (if minBound a \<and> maxBound b then - 1
      else if maxBound a \<and> minBound b then 1
      else if unmeasurable a \<and> unmeasurable b then lc a b
      else if unmeasurable a then 1
      else if unmeasurable b then - 1
      else if jsGt (getQueryLength a) (getQueryLength b) then (if maxBound a then - 1 else 1)
      else if jsLt (getQueryLength a) (getQueryLength b) then (if maxBound a then 1 else - 1)
      else lc a b)"
  by (simp add: sortCSSmq_def unmeasurable_def Let_def)

lemma desktopFirst_cases:
  "desktopFirst lc a b =
     (if minBound a \<and> maxBound b then 1
      else if maxBound a \<and> minBound b then - 1
      else if unmeasurable a \<and> unmeasurable b then lc a b
      else if unmeasurable a then 1
      else if unmeasurable b then - 1
      else if jsGt (getQueryLength a) (getQueryLength b) then (if maxBound a then - 1 else 1)
      else if jsLt (getQueryLength a) (getQueryLength b) then (if maxBound a then 1 else - 1)
      else - lc a b)"
  by (simp add: desktopFirst_def unmeasurable_def Let_def)

lemma comparator_split:
  fixes P Q ua ub g l xa :: bool and v :: int
  shows "((if P then - 1 else if Q then 1 else if ua \<and> ub then v else if ua then 1
           else if ub then - 1 else if g then (if xa then - 1 else 1)
           else if l then (if xa then 1 else - 1) else v) =
          - (if P then 1 else if Q then - 1 else if ua \<and> ub then v else if ua then 1
           else if ub then - 1 else if g then (if xa then - 1 else 1)
           else if l then (if xa then 1 else - 1) else - v))
         \<longleftrightarrow> (P \<or> Q) \<or> (\<not> (P \<or> Q) \<and> \<not> ua \<and> \<not> ub \<and> \<not> g \<and> \<not> l) \<or>
              (\<not> (P \<or> Q) \<and> ua \<and> ub) \<and> v = 0"
  by (cases P; cases Q; cases ua; cases ub; cases g; cases l; cases xa) simp_all

lemma unmirrored_split:
  fixes P Q ua ub g l xa :: bool and v :: int
  shows "(\<not> ((P \<or> Q) \<or> (\<not> (P \<or> Q) \<and> \<not> ua \<and> \<not> ub \<and> \<not> g \<and> \<not> l) \<or>
              (\<not> (P \<or> Q) \<and> ua \<and> ub) \<and> v = 0) \<longrightarrow>
          (if P then - 1 else if Q then 1 else if ua \<and> ub then v else if ua then 1
           else if ub then - 1 else if g then (if xa then - 1 else 1)
           else if l then (if xa then 1 else - 1) else v) =
          (if P then 1 else if Q then - 1 else if ua \<and> ub then v else if ua then 1
           else if ub then - 1 else if g then (if xa then - 1 else 1)
           else if l then (if xa then 1 else - 1) else - v) \<and>
          (if P then - 1 else if Q then 1 else if ua \<and> ub then v else if ua then 1
           else if ub then - 1 else if g then (if xa then - 1 else 1)
           else if l then (if xa then 1 else - 1) else v) \<noteq> 0) \<and>
         (\<not> (P \<or> Q) \<and> ua \<and> \<not> ub \<longrightarrow>
          (if P then - 1 else if Q then 1 else if ua \<and> ub then v else if ua then 1
           else if ub then - 1 else if g then (if xa then - 1 else 1)
           else if l then (if xa then 1 else - 1) else v) = 1 \<and>
          (if P then 1 else if Q then - 1 else if ua \<and> ub then v else if ua then 1
           else if ub then - 1 else if g then (if xa then - 1 else 1)
           else if l then (if xa then 1 else - 1) else - v) = 1) \<and>
         (\<not> (P \<or> Q) \<and> \<not> ua \<and> ub \<longrightarrow>
          (if P then - 1 else if Q then 1 else if ua \<and> ub then v else if ua then 1
           else if ub then - 1 else if g then (if xa then - 1 else 1)
           else if l then (if xa then 1 else - 1) else v) = - 1 \<and>
          (if P then 1 else if Q then - 1 else if ua \<and> ub then v else if ua then 1
           else if ub then - 1 else if g then (if xa then - 1 else 1)
           else if l then (if xa then 1 else - 1) else - v) = - 1) \<and>
         (\<not> (P \<or> Q) \<and> \<not> ua \<and> \<not> ub \<and> (g \<or> l) \<longrightarrow>
          (if P then - 1 else if Q then 1 else if ua \<and> ub then v else if ua then 1
           else if ub then - 1 else if g then (if xa then - 1 else 1)
           else if l then (if xa then 1 else - 1) else v) =
          (if P then 1 else if Q then - 1 else if ua \<and> ub then v else if ua then 1
           else if ub then - 1 else if g then (if xa then - 1 else 1)
           else if l then (if xa then 1 else - 1) else - v) \<and>
          (if P then - 1 else if Q then 1 else if ua \<and> ub then v else if ua then 1
           else if ub then - 1 else if g then (if xa then - 1 else 1)
           else if l then (if xa then 1 else - 1) else v) \<noteq> 0) \<and>
         (\<not> (P \<or> Q) \<and> ua \<and> ub \<longrightarrow>
          (if P then - 1 else if Q then 1 else if ua \<and> ub then v else if ua then 1
           else if ub then - 1 else if g then (if xa then - 1 else 1)
           else if l then (if xa then 1 else - 1) else v) = v \<and>
          (if P then 1 else if Q then - 1 else if ua \<and> ub then v else if ua then 1
           else if ub then - 1 else if g then (if xa then - 1 else 1)
           else if l then (if xa then 1 else - 1) else - v) = v)"
  by (cases P; cases Q; cases ua; cases ub; cases g; cases l; cases xa) simp_all

lemma same_split:
  fixes P Q ua ub g l xa :: bool and v :: int
  assumes "g \<or> l" and "\<not> P" and "\<not> Q" and "\<not> (ua \<and> ub)"
  shows "(if P then - 1 else if Q then 1 else if ua \<and> ub then v else if ua then 1
           else if ub then - 1 else if g then (if xa then - 1 else 1)
           else if l then (if xa then 1 else - 1) else v) =
         (if P then 1 else if Q then - 1 else if ua \<and> ub then v else if ua then 1
           else if ub then - 1 else if g then (if xa then - 1 else 1)
           else if l then (if xa then 1 else - 1) else - v)"
  using assms by (cases ua; cases ub; cases g; cases l) simp_all

lemma antisymmetry_split:
  fixes mA xA mB xB ua ub l g e :: bool and v :: int
  assumes "l \<or> g \<or> e" and "l \<Longrightarrow> \<not> g" and "e \<Longrightarrow> \<not> l \<and> \<not> g" and "ua \<Longrightarrow> ub \<Longrightarrow> e"
  shows "((if mA \<and> xB then - 1 else if xA \<and> mB then 1 else if ua \<and> ub then v else if ua then 1
           else if ub then - 1 else if g then (if xA then - 1 else 1)
           else if l then (if xA then 1 else - 1) else v) =
          - (if mB \<and> xA then - 1 else if xB \<and> mA then 1 else if ub \<and> ua then - v else if ub then 1
           else if ua then - 1 else if l then (if xB then - 1 else 1)
           else if g then (if xB then 1 else - 1) else - v))
         \<longleftrightarrow> \<not> (mA \<and> xB \<and> xA \<and> mB) \<and>
              (\<not> (mA \<and> xB \<or> xA \<and> mB) \<and> \<not> ua \<and> \<not> ub \<and> \<not> e \<longrightarrow> xA = xB)"
proof (cases "mA \<and> xB \<or> xA \<and> mB")
  case True
  then show ?thesis by auto
next
  case False
  then have p: "\<not> (mA \<and> xB)" "\<not> (xA \<and> mB)" "\<not> (mB \<and> xA)" "\<not> (xB \<and> mA)" by auto
  have q: "\<not> (mA \<and> xB \<and> xA \<and> mB)" "\<not> (mA \<and> xB \<or> xA \<and> mB)" using p by auto
  have "((if ua \<and> ub then v else if ua then 1
           else if ub then - 1 else if g then (if xA then - 1 else 1)
           else if l then (if xA then 1 else - 1) else v) =
          - (if ub \<and> ua then - v else if ub then 1
           else if ua then - 1 else if l then (if xB then - 1 else 1)
           else if g then (if xB then 1 else - 1) else - v))
         \<longleftrightarrow> (\<not> ua \<and> \<not> ub \<and> \<not> e \<longrightarrow> xA = xB)"
    using assms by (cases ua; cases ub; cases l; cases g; cases e; cases xA; cases xB) simp_all
  then show ?thesis
    unfolding if_not_P[OF p(1)] if_not_P[OF p(2)] if_not_P[OF p(3)] if_not_P[OF p(4)]
    using q by simp
qed


section \<open>Evaluating the patterns on a given string\<close>

text \<open>
  Every classifier pattern starts with \<open>(\<close>, the four combined ones with an optional
  \<open>!\<close> before it: at any other character the match fails at once.
\<close>

lemma ms_minMaxWidth_Cons:
  "ms minMaxWidth (x # xs) =
     (if x = 0x28 \<or> x = 0x21
      then ms (seqs [Opt (str ''!''), str ''('', Star Space, str ''min'',
             Opt (str ''-device-''), str ''-width'', Plus Dot,
             str ''('', Star Space, str ''max'', Opt (str ''-device''), str ''-width'']) (x # xs)
      else [])"
  by (simp add: minMaxWidth_def seqs_def str_def)

lemma ms_maxMinWidth_Cons:
  "ms maxMinWidth (x # xs) =
     (if x = 0x28 \<or> x = 0x21
      then ms (seqs [Opt (str ''!''), str ''('', Star Space, str ''max'',
             Opt (str ''-device''), str ''-width'', Plus Dot,
             str ''('', Star Space, str ''min'', Opt (str ''-device''), str ''-width'']) (x # xs)
      else [])"
  by (simp add: maxMinWidth_def seqs_def str_def)

lemma ms_minWidth_Cons:
  "ms minWidth (x # xs) =
     (if x = 0x28
      then ms (seqs [str ''('', Star Space, str ''min'', Opt (str ''-device''), str ''-width''])
             (x # xs)
      else [])"
  by (simp add: minWidth_def seqs_def str_def)

lemma ms_maxWidth_Cons:
  "ms maxWidth (x # xs) =
     (if x = 0x28
      then ms (seqs [str ''('', Star Space, str ''max'', Opt (str ''-device''), str ''-width''])
             (x # xs)
      else [])"
  by (simp add: maxWidth_def seqs_def str_def)

lemma ms_minMaxHeight_Cons:
  "ms minMaxHeight (x # xs) =
     (if x = 0x28 \<or> x = 0x21
      then ms (seqs [Opt (str ''!''), str ''('', Star Space, str ''min'',
             Opt (str ''-device''), str ''-height'', Plus Dot,
             str ''('', Star Space, str ''max'', Opt (str ''-device''), str ''-height'']) (x # xs)
      else [])"
  by (simp add: minMaxHeight_def seqs_def str_def)

lemma ms_maxMinHeight_Cons:
  "ms maxMinHeight (x # xs) =
     (if x = 0x28 \<or> x = 0x21
      then ms (seqs [Opt (str ''!''), str ''('', Star Space, str ''max'',
             Opt (str ''-device''), str ''-height'', Plus Dot,
             str ''('', Star Space, str ''min'', Opt (str ''-device''), str ''-height'']) (x # xs)
      else [])"
  by (simp add: maxMinHeight_def seqs_def str_def)

lemma ms_minHeight_Cons:
  "ms minHeight (x # xs) =
     (if x = 0x28
      then ms (seqs [str ''('', Star Space, str ''min'', Opt (str ''-device''), str ''-height''])
             (x # xs)
      else [])"
  by (simp add: minHeight_def seqs_def str_def)

lemma ms_maxHeight_Cons:
  "ms maxHeight (x # xs) =
     (if x = 0x28
      then ms (seqs [str ''('', Star Space, str ''max'', Opt (str ''-device''), str ''-height''])
             (x # xs)
      else [])"
  by (simp add: maxHeight_def seqs_def str_def)

lemma ms_classifier_Nil:
  "ms minMaxWidth [] = []" "ms maxMinWidth [] = []" "ms minWidth [] = []" "ms maxWidth [] = []"
  "ms minMaxHeight [] = []" "ms maxMinHeight [] = []" "ms minHeight [] = []" "ms maxHeight [] = []"
  by (simp_all add: minMaxWidth_def maxMinWidth_def minWidth_def maxWidth_def
        minMaxHeight_def maxMinHeight_def minHeight_def maxHeight_def seqs_def str_def)

text \<open>The length pattern starts with a minus sign, a point or a digit.\<close>

lemma matchAt_length_Cons:
  "matchAt lengthNumber lengthUnit (x # xs) =
     (if x = 0x2D \<or> x = 0x2E \<or> accept Digit x
      then (case concat (map (\<lambda>r. map (\<lambda>r'. (r, r'))
                   (ms (Alt (str ''ch'') (Alt (str ''em'') (Alt (str ''ex'')
                      (Alt (str ''px'') (str ''rem''))))) r))
                   (ms (seqs [Opt (str ''-''), Star Digit, Opt (str ''.''), Plus Digit]) (x # xs))) of
              [] \<Rightarrow> None
            | (r, r') # _ \<Rightarrow>
                Some (take (length (x # xs) - length r) (x # xs), take (length r - length r') r))
      else None)"
  by (auto simp: matchAt_def lengthNumber_def lengthUnit_def seqs_def str_def)

lemma matchAt_length_Nil: "matchAt lengthNumber lengthUnit [] = None"
  by (simp add: matchAt_def lengthNumber_def lengthUnit_def seqs_def str_def)

lemma toDouble_numeral:
  "(numeral k :: nat) < 2 ^ 53 \<Longrightarrow> toDouble (numeral k) = Fin (numeral k)"
  using toDouble_of_nat[of "numeral k"] by simp

lemma toDouble_0: "toDouble 0 = Fin 0" and toDouble_1: "toDouble 1 = Fin 1"
  using toDouble_of_nat[of 0] toDouble_of_nat[of 1] by simp_all

lemmas scan =
  ms_minMaxWidth_Cons ms_maxMinWidth_Cons ms_minWidth_Cons ms_maxWidth_Cons
  ms_minMaxHeight_Cons ms_maxMinHeight_Cons ms_minHeight_Cons ms_maxHeight_Cons
  ms_classifier_Nil seqs_def str_def js_def

lemmas classifiers =
  isMinWidth_def isMaxWidth_def isMinHeight_def isMaxHeight_def testQuery_def

lemmas scan_length =
  matchAt_length_Cons matchAt_length_Nil seqs_def str_def js_def

lemmas convert =
  js_def parseFloat_def digitsVal_def digitVal_def toDouble_numeral toDouble_0 toDouble_1

text \<open>The patterns on some queries.\<close>

lemma test_min_100:
  "\<not> test minMaxWidth (js ''(min-width: 100px)'')"
  "\<not> test maxMinWidth (js ''(min-width: 100px)'')"
  "test minWidth (js ''(min-width: 100px)'')"
  "\<not> test maxWidth (js ''(min-width: 100px)'')"
  "\<not> test minMaxHeight (js ''(min-width: 100px)'')"
  "\<not> test maxMinHeight (js ''(min-width: 100px)'')"
  "\<not> test minHeight (js ''(min-width: 100px)'')"
  "\<not> test maxHeight (js ''(min-width: 100px)'')"
  by (simp_all add: scan)

lemma class_min_100:
  "isMinWidth (js ''(min-width: 100px)'')"
  "\<not> isMaxWidth (js ''(min-width: 100px)'')"
  "\<not> isMinHeight (js ''(min-width: 100px)'')"
  "\<not> isMaxHeight (js ''(min-width: 100px)'')"
  by (simp_all add: classifiers test_min_100)

lemma test_min_200:
  "\<not> test minMaxWidth (js ''(min-width: 200px)'')"
  "\<not> test maxMinWidth (js ''(min-width: 200px)'')"
  "test minWidth (js ''(min-width: 200px)'')"
  "\<not> test maxWidth (js ''(min-width: 200px)'')"
  "\<not> test minMaxHeight (js ''(min-width: 200px)'')"
  "\<not> test maxMinHeight (js ''(min-width: 200px)'')"
  "\<not> test minHeight (js ''(min-width: 200px)'')"
  "\<not> test maxHeight (js ''(min-width: 200px)'')"
  by (simp_all add: scan)

lemma class_min_200:
  "isMinWidth (js ''(min-width: 200px)'')"
  "\<not> isMaxWidth (js ''(min-width: 200px)'')"
  "\<not> isMinHeight (js ''(min-width: 200px)'')"
  "\<not> isMaxHeight (js ''(min-width: 200px)'')"
  by (simp_all add: classifiers test_min_200)

lemma test_max_200:
  "\<not> test minMaxWidth (js ''(max-width: 200px)'')"
  "\<not> test maxMinWidth (js ''(max-width: 200px)'')"
  "\<not> test minWidth (js ''(max-width: 200px)'')"
  "test maxWidth (js ''(max-width: 200px)'')"
  "\<not> test minMaxHeight (js ''(max-width: 200px)'')"
  "\<not> test maxMinHeight (js ''(max-width: 200px)'')"
  "\<not> test minHeight (js ''(max-width: 200px)'')"
  by (simp_all add: scan)

lemma class_max_200:
  "\<not> isMinWidth (js ''(max-width: 200px)'')"
  "isMaxWidth (js ''(max-width: 200px)'')"
  "\<not> isMinHeight (js ''(max-width: 200px)'')"
  by (simp_all add: classifiers test_max_200)

lemma test_max_100:
  "\<not> test minMaxWidth (js ''(max-width: 100px)'')"
  "\<not> test maxMinWidth (js ''(max-width: 100px)'')"
  "\<not> test minWidth (js ''(max-width: 100px)'')"
  "test maxWidth (js ''(max-width: 100px)'')"
  "\<not> test minMaxHeight (js ''(max-width: 100px)'')"
  "\<not> test maxMinHeight (js ''(max-width: 100px)'')"
  "\<not> test minHeight (js ''(max-width: 100px)'')"
  by (simp_all add: scan)

lemma class_max_100:
  "\<not> isMinWidth (js ''(max-width: 100px)'')"
  "isMaxWidth (js ''(max-width: 100px)'')"
  "\<not> isMinHeight (js ''(max-width: 100px)'')"
  by (simp_all add: classifiers test_max_100)

lemma test_min_50vw:
  "\<not> test minMaxWidth (js ''(min-width: 50vw)'')"
  "\<not> test maxMinWidth (js ''(min-width: 50vw)'')"
  "test minWidth (js ''(min-width: 50vw)'')"
  by (simp_all add: scan)

lemma class_min_50vw:
  "isMinWidth (js ''(min-width: 50vw)'')"
  by (simp_all add: classifiers test_min_50vw)

lemma test_print:
  "\<not> test minMaxWidth (js ''print'')"
  "\<not> test maxMinWidth (js ''print'')"
  "\<not> test minWidth (js ''print'')"
  "\<not> test maxWidth (js ''print'')"
  "\<not> test minMaxHeight (js ''print'')"
  "\<not> test maxMinHeight (js ''print'')"
  "\<not> test minHeight (js ''print'')"
  "\<not> test maxHeight (js ''print'')"
  by (simp_all add: scan)

lemma class_print:
  "\<not> isMinWidth (js ''print'')"
  "\<not> isMaxWidth (js ''print'')"
  "\<not> isMinHeight (js ''print'')"
  "\<not> isMaxHeight (js ''print'')"
  by (simp_all add: classifiers test_print)

lemma test_min_width_max_height:
  "\<not> test minMaxWidth (js ''(min-width: 100px) and (max-height: 200px)'')"
  "\<not> test maxMinWidth (js ''(min-width: 100px) and (max-height: 200px)'')"
  "test minWidth (js ''(min-width: 100px) and (max-height: 200px)'')"
  "\<not> test maxMinHeight (js ''(min-width: 100px) and (max-height: 200px)'')"
  "\<not> test minMaxHeight (js ''(min-width: 100px) and (max-height: 200px)'')"
  "test maxHeight (js ''(min-width: 100px) and (max-height: 200px)'')"
  by (simp_all add: scan)

lemma class_min_width_max_height:
  "isMinWidth (js ''(min-width: 100px) and (max-height: 200px)'')"
  "isMaxHeight (js ''(min-width: 100px) and (max-height: 200px)'')"
  by (simp_all add: classifiers test_min_width_max_height)

lemma test_min_max_min:
  "test maxMinWidth (js ''(min-width: 100px) and (max-width: 200px), (min-width: 300px)'')"
  "test minMaxWidth (js ''(min-width: 100px) and (max-width: 200px), (min-width: 300px)'')"
  by (simp_all add: scan)

lemma class_min_max_min:
  "isMaxWidth (js ''(min-width: 100px) and (max-width: 200px), (min-width: 300px)'')"
  by (simp_all add: classifiers test_min_max_min)

lemma test_device_range:
  "\<not> test minMaxWidth (js ''(min-device-width: 320px) and (max-device-width: 767px)'')"
  "\<not> test maxMinWidth (js ''(min-device-width: 320px) and (max-device-width: 767px)'')"
  "test minWidth (js ''(min-device-width: 320px) and (max-device-width: 767px)'')"
  "test maxWidth (js ''(min-device-width: 320px) and (max-device-width: 767px)'')"
  by (simp_all add: scan)

lemma class_device_range:
  "isMinWidth (js ''(min-device-width: 320px) and (max-device-width: 767px)'')"
  "isMaxWidth (js ''(min-device-width: 320px) and (max-device-width: 767px)'')"
  by (simp_all add: classifiers test_device_range)

lemma test_device_height_range:
  "test minMaxHeight (js ''(min-device-height: 320px) and (max-device-height: 767px)'')"
  "\<not> test maxMinHeight (js ''(min-device-height: 320px) and (max-device-height: 767px)'')"
  by (simp_all add: scan)

lemma class_device_height_range:
  "isMinHeight (js ''(min-device-height: 320px) and (max-device-height: 767px)'')"
  "\<not> isMaxHeight (js ''(min-device-height: 320px) and (max-device-height: 767px)'')"
  by (simp_all add: classifiers test_device_height_range)

lemma test_width_range:
  "test minMaxWidth (js ''(min-width: 320px) and (max-width: 767px)'')"
  "\<not> test maxMinWidth (js ''(min-width: 320px) and (max-width: 767px)'')"
  by (simp_all add: scan)

lemma class_width_range:
  "isMinWidth (js ''(min-width: 320px) and (max-width: 767px)'')"
  "\<not> isMaxWidth (js ''(min-width: 320px) and (max-width: 767px)'')"
  by (simp_all add: classifiers test_width_range)

lemma test_width_range_rev:
  "\<not> test minMaxWidth (js ''(max-width: 767px) and (min-width: 320px)'')"
  "test maxMinWidth (js ''(max-width: 767px) and (min-width: 320px)'')"
  by (simp_all add: scan)

lemma test_height_range:
  "test minMaxHeight (js ''(min-height: 320px) and (max-height: 767px)'')"
  "\<not> test maxMinHeight (js ''(min-height: 320px) and (max-height: 767px)'')"
  by (simp_all add: scan)

lemma class_height_range:
  "isMinHeight (js ''(min-height: 320px) and (max-height: 767px)'')"
  "\<not> isMaxHeight (js ''(min-height: 320px) and (max-height: 767px)'')"
  by (simp_all add: classifiers test_height_range)

lemma test_height_range_rev:
  "\<not> test minMaxHeight (js ''(max-height: 767px) and (min-height: 320px)'')"
  "test maxMinHeight (js ''(max-height: 767px) and (min-height: 320px)'')"
  by (simp_all add: scan)

lemma test_min_height:
  "\<not> test minMaxHeight (js ''(min-height: 480px)'')"
  "\<not> test maxMinHeight (js ''(min-height: 480px)'')"
  by (simp_all add: scan)

lemma test_min_1em:
  "\<not> test minMaxWidth (js ''(min-width: 1em)'')"
  "\<not> test maxMinWidth (js ''(min-width: 1em)'')"
  "test minWidth (js ''(min-width: 1em)'')"
  "\<not> test maxWidth (js ''(min-width: 1em)'')"
  "\<not> test minMaxHeight (js ''(min-width: 1em)'')"
  "\<not> test maxMinHeight (js ''(min-width: 1em)'')"
  "\<not> test minHeight (js ''(min-width: 1em)'')"
  "\<not> test maxHeight (js ''(min-width: 1em)'')"
  by (simp_all add: scan)

lemma class_min_1em:
  "isMinWidth (js ''(min-width: 1em)'')"
  "\<not> isMaxWidth (js ''(min-width: 1em)'')"
  "\<not> isMinHeight (js ''(min-width: 1em)'')"
  "\<not> isMaxHeight (js ''(min-width: 1em)'')"
  by (simp_all add: classifiers test_min_1em)

lemma test_min_16px:
  "\<not> test minMaxWidth (js ''(min-width: 16px)'')"
  "\<not> test maxMinWidth (js ''(min-width: 16px)'')"
  "test minWidth (js ''(min-width: 16px)'')"
  "\<not> test maxWidth (js ''(min-width: 16px)'')"
  "\<not> test minMaxHeight (js ''(min-width: 16px)'')"
  "\<not> test maxMinHeight (js ''(min-width: 16px)'')"
  "\<not> test minHeight (js ''(min-width: 16px)'')"
  "\<not> test maxHeight (js ''(min-width: 16px)'')"
  by (simp_all add: scan)

lemma class_min_16px:
  "isMinWidth (js ''(min-width: 16px)'')"
  "\<not> isMaxWidth (js ''(min-width: 16px)'')"
  "\<not> isMinHeight (js ''(min-width: 16px)'')"
  "\<not> isMaxHeight (js ''(min-width: 16px)'')"
  by (simp_all add: classifiers test_min_16px)

lemma test_tv:
  "\<not> test minMaxWidth (js ''tv'')"
  "\<not> test maxMinWidth (js ''tv'')"
  "\<not> test minWidth (js ''tv'')"
  "\<not> test maxWidth (js ''tv'')"
  "\<not> test minMaxHeight (js ''tv'')"
  "\<not> test maxMinHeight (js ''tv'')"
  "\<not> test minHeight (js ''tv'')"
  "\<not> test maxHeight (js ''tv'')"
  by (simp_all add: scan)

lemma class_tv:
  "\<not> isMinWidth (js ''tv'')"
  "\<not> isMaxWidth (js ''tv'')"
  "\<not> isMinHeight (js ''tv'')"
  "\<not> isMaxHeight (js ''tv'')"
  by (simp_all add: classifiers test_tv)

text \<open>The lengths of some queries.\<close>

lemma exec_min_100:
  "exec lengthNumber lengthUnit (js ''(min-width: 100px)'') = Some (js ''100'', js ''px'')"
  by (simp add: scan_length)

lemma length_min_100:
  "getQueryLength (js ''(min-width: 100px)'') = Num (Fin 100)"
  unfolding getQueryLength_def exec_min_100 by (simp add: convert)

lemma exec_min_200:
  "exec lengthNumber lengthUnit (js ''(min-width: 200px)'') = Some (js ''200'', js ''px'')"
  by (simp add: scan_length)

lemma length_min_200:
  "getQueryLength (js ''(min-width: 200px)'') = Num (Fin 200)"
  unfolding getQueryLength_def exec_min_200 by (simp add: convert)

lemma exec_max_200:
  "exec lengthNumber lengthUnit (js ''(max-width: 200px)'') = Some (js ''200'', js ''px'')"
  by (simp add: scan_length)

lemma length_max_200:
  "getQueryLength (js ''(max-width: 200px)'') = Num (Fin 200)"
  unfolding getQueryLength_def exec_max_200 by (simp add: convert)

lemma exec_max_100:
  "exec lengthNumber lengthUnit (js ''(max-width: 100px)'') = Some (js ''100'', js ''px'')"
  by (simp add: scan_length)

lemma length_max_100:
  "getQueryLength (js ''(max-width: 100px)'') = Num (Fin 100)"
  unfolding getQueryLength_def exec_max_100 by (simp add: convert)

lemma exec_min_50vw:
  "exec lengthNumber lengthUnit (js ''(min-width: 50vw)'') = None"
  by (simp add: scan_length)

lemma length_min_50vw:
  "getQueryLength (js ''(min-width: 50vw)'') = Num maxValue"
  unfolding getQueryLength_def exec_min_50vw by simp

lemma exec_print:
  "exec lengthNumber lengthUnit (js ''print'') = None"
  by (simp add: scan_length)

lemma length_print:
  "getQueryLength (js ''print'') = Num maxValue"
  unfolding getQueryLength_def exec_print by simp

lemma exec_min_1em:
  "exec lengthNumber lengthUnit (js ''(min-width: 1em)'') = Some (js ''1'', js ''em'')"
  by (simp add: scan_length)

lemma length_min_1em:
  "getQueryLength (js ''(min-width: 1em)'') = Num (Fin 16)"
  unfolding getQueryLength_def exec_min_1em by (simp add: convert)

lemma exec_min_16px:
  "exec lengthNumber lengthUnit (js ''(min-width: 16px)'') = Some (js ''16'', js ''px'')"
  by (simp add: scan_length)

lemma length_min_16px:
  "getQueryLength (js ''(min-width: 16px)'') = Num (Fin 16)"
  unfolding getQueryLength_def exec_min_16px by (simp add: convert)

lemma exec_tv:
  "exec lengthNumber lengthUnit (js ''tv'') = None"
  by (simp add: scan_length)

lemma length_tv:
  "getQueryLength (js ''tv'') = Num maxValue"
  unfolding getQueryLength_def exec_tv by simp

text \<open>The replacement of the device names in two queries.\<close>

lemma undevice_device_range:
  "undevice (js ''(min-device-width: 320px) and (max-device-width: 767px)'') =
     js ''(min-width: 320px) and (max-width: 767px)''"
  by (simp add: js_def)

lemma undevice_device_height_range:
  "undevice (js ''(min-device-height: 320px) and (max-device-height: 767px)'') =
     js ''(min-height: 320px) and (max-height: 767px)''"
  by (simp add: js_def)

text \<open>
  An example where both roundings show: \<open>0.1\<close> is not a binary64 value, and neither is
  its product with \<open>8.296875\<close>.
\<close>

lemma parseFloat_tenth: "parseFloat (js ''0.1'') = Fin (3602879701896397 / 36028797018963968)"
  by (simp add: js_def parseFloat_def digitsVal_def digitVal_def toDouble_tenth)

lemma numMul_tenth_ex:
  "numMul (Fin (3602879701896397 / 36028797018963968)) (Fin 8.296875) =
     Fin (7473160631667917 / 9007199254740992)"
  using toDouble_near [of "3602879701896397 / 36028797018963968 * 8.296875" "- 1" "- 53"
      7473160631667917]
  by simp

lemma length_tenth_ex:
  "getQueryLength (js ''0.1ex'') = Num (Fin (7473160631667917 / 9007199254740992))"
proof -
  have e: "exec lengthNumber lengthUnit (js ''0.1ex'') = Some (js ''0.1'', js ''ex'')"
    by (simp add: scan_length)
  show ?thesis unfolding getQueryLength_def e
    using parseFloat_tenth numMul_tenth_ex by (simp add: js_def)
qed

text \<open>
  The sentinel is a Number like any other. \<open>1.7976931348623157e308\<close> written without an
  exponent is \<open>17976931348623157\<close> and 292 zeros; it rounds to \<open>Number.MAX_VALUE\<close>, so
  with the unit \<open>px\<close> it is a pair whose length is the sentinel.
\<close>

lemma foldl_digits:
  "foldl (\<lambda>n x. 10 * n + digitVal x) a ds = a * 10 ^ length ds + foldl (\<lambda>n x. 10 * n + digitVal x) 0 ds"
proof (induction ds arbitrary: a)
  case Nil
  show ?case by simp
next
  case (Cons d ds)
  show ?case
    using Cons.IH[of "10 * a + digitVal d"] Cons.IH[of "digitVal d"]
    by (simp add: algebra_simps)
qed

lemma digitsVal_zeros: "digitsVal (ds @ replicate n 0x30) = digitsVal ds * 10 ^ n"
proof -
  have z: "foldl (\<lambda>n x. 10 * n + digitVal x) 0 (replicate n 0x30) = 0"
    by (induction n) (simp_all add: digitVal_def)
  show ?thesis
    unfolding digitsVal_def foldl_append
    using foldl_digits[of "foldl (\<lambda>n x. 10 * n + digitVal x) 0 ds" "replicate n 0x30"] z
    by simp
qed

lemma max_value_text:
  "hasLengthPair (js ''17976931348623157'' @ replicate 292 0x30 @ js ''px'') \<and>
   getQueryLength (js ''17976931348623157'' @ replicate 292 0x30 @ js ''px'') = Num maxValue"
proof -
  define n where "n = js ''17976931348623157'' @ replicate 292 0x30"
  define s where "s = n @ js ''px''"
  have d: "list_all (accept Digit) n" unfolding n_def by (simp add: js_def list_all_iff)
  have ne: "n \<noteq> []" and hd: "hd n \<noteq> 0x2D" unfolding n_def by (simp_all add: js_def)
  have num: "isNumberText n"
    unfolding isNumberText_def
    using d ne by (intro exI[of _ "[]"] exI[of _ n]) simp
  have "s = [] @ n @ js ''px'' @ []" unfolding s_def by simp
  then have p: "pairAt s 0 n (js ''px'')"
    unfolding pairAt_def using num by (intro exI[of _ "[]"] conjI) (auto simp: unitNames_def)
  then have first: "firstPair s 0 n (js ''px'')" unfolding firstPair_def by simp
  have dv: "digitsVal n = 17976931348623157 * 10 ^ 292"
    unfolding n_def digitsVal_zeros by (simp add: js_def digitsVal_def digitVal_def)
  have tw: "takeWhile (accept Digit) n = n" using d by (rule takeWhile_all_self)
  have dw: "dropWhile (accept Digit) n = []" using dropWhile_all[OF d, of "[]"] by simp
  have v: "parseFloat n = toDouble (17976931348623157 * 10 ^ 292)"
    unfolding parseFloat_def Let_def using ne hd
    by (simp only: if_False simp_thms tw dw dv) (simp add: digitsVal_def)
  have "toDouble (17976931348623157 * 10 ^ 292) = Fin (of_int (2 ^ 53 - 1) * 2 powi 971)"
    by (rule toDouble_near[where k = 1023]) simp_all
  then have "parseFloat n = maxValue" unfolding v maxValue_def by simp
  with getQueryLength_firstPair[OF first] numMul_parseFloat_one[of n]
  have "getQueryLength s = Num maxValue"
    by (simp add: unitFactor_def)
  moreover have "hasLengthPair s" unfolding hasLengthPair_def using p by blast
  ultimately show ?thesis unfolding s_def n_def by simp
qed

section \<open>The claims\<close>

lemma codeUnitCompare_antisym: "codeUnitCompare y x = - codeUnitCompare x y"
  by (auto simp: codeUnitCompare_def)

lemma measurable_100: "\<not> strictEq (Num (Fin 100)) (Num maxValue)"
  and measurable_200: "\<not> strictEq (Num (Fin 200)) (Num maxValue)"
  by (simp_all add: maxValue_def)

text \<open>
  C1. The two comparators are mirrors, \<open>sortCSSmq a b = - desktopFirst a b\<close>, exactly when
  the priority rule decides, or when both lengths are measurable and neither is larger (the
  last tie-break, which desktop-first negates), or when both lengths are the sentinel and
  \<open>localeCompare\<close> returns \<open>0\<close>. In the other cases the two results are the same number
  and not \<open>0\<close>. These cases are: the single-sentinel branches, where both comparators
  return \<open>1\<close> when the first length is the sentinel and \<open>-1\<close> when the second is; the
  length comparison, where one measurable length is larger than the other; and two
  unmeasurable queries that \<open>localeCompare\<close> tells apart, where both comparators return the
  result of \<open>localeCompare\<close> as it is.
\<close>

theorem mirror_branches:
  "(sortCSSmq lc a b = - desktopFirst lc a b \<longleftrightarrow>
      priorityDecides a b \<or> tieBreakDecides a b \<or> bothUnmeasurable a b \<and> lc a b = 0) \<and>
   (\<not> (priorityDecides a b \<or> tieBreakDecides a b \<or> bothUnmeasurable a b \<and> lc a b = 0) \<longrightarrow>
      sortCSSmq lc a b = desktopFirst lc a b \<and> sortCSSmq lc a b \<noteq> 0) \<and>
   (\<not> priorityDecides a b \<and> unmeasurable a \<and> \<not> unmeasurable b \<longrightarrow>
      sortCSSmq lc a b = 1 \<and> desktopFirst lc a b = 1) \<and>
   (\<not> priorityDecides a b \<and> \<not> unmeasurable a \<and> unmeasurable b \<longrightarrow>
      sortCSSmq lc a b = - 1 \<and> desktopFirst lc a b = - 1) \<and>
   (\<not> priorityDecides a b \<and> \<not> unmeasurable a \<and> \<not> unmeasurable b \<and>
      (jsGt (getQueryLength a) (getQueryLength b) \<or> jsLt (getQueryLength a) (getQueryLength b)) \<longrightarrow>
      sortCSSmq lc a b = desktopFirst lc a b \<and> sortCSSmq lc a b \<noteq> 0) \<and>
   (bothUnmeasurable a b \<longrightarrow> sortCSSmq lc a b = lc a b \<and> desktopFirst lc a b = lc a b)"
  unfolding sortCSSmq_cases desktopFirst_cases priorityDecides_def tieBreakDecides_def
    bothUnmeasurable_def
  by (rule conjI, rule comparator_split, rule unmirrored_split)

text \<open>
  One pair of queries for each case: a minimum against a maximum (priority), \<open>1em\<close> against
  \<open>16px\<close> (the last tie-break), \<open>100px\<close> against \<open>200px\<close> (the length comparison),
  \<open>print\<close> against \<open>100px\<close> and back (one sentinel), and \<open>print\<close> against \<open>tv\<close> (two
  sentinels that the comparison of code units tells apart).
\<close>

theorem mirror_branches_witness:
  "(priorityDecides (js ''(min-width: 100px)'') (js ''(max-width: 200px)'') \<and>
    sortCSSmq codeUnitCompare (js ''(min-width: 100px)'') (js ''(max-width: 200px)'') =
      - desktopFirst codeUnitCompare (js ''(min-width: 100px)'') (js ''(max-width: 200px)'')) \<and>
   (tieBreakDecides (js ''(min-width: 1em)'') (js ''(min-width: 16px)'') \<and>
    codeUnitCompare (js ''(min-width: 1em)'') (js ''(min-width: 16px)'') = 1 \<and>
    sortCSSmq codeUnitCompare (js ''(min-width: 1em)'') (js ''(min-width: 16px)'') =
      - desktopFirst codeUnitCompare (js ''(min-width: 1em)'') (js ''(min-width: 16px)'')) \<and>
   (\<not> priorityDecides (js ''(min-width: 100px)'') (js ''(min-width: 200px)'') \<and>
    \<not> unmeasurable (js ''(min-width: 100px)'') \<and> \<not> unmeasurable (js ''(min-width: 200px)'') \<and>
    jsLt (getQueryLength (js ''(min-width: 100px)'')) (getQueryLength (js ''(min-width: 200px)'')) \<and>
    sortCSSmq codeUnitCompare (js ''(min-width: 100px)'') (js ''(min-width: 200px)'') =
      desktopFirst codeUnitCompare (js ''(min-width: 100px)'') (js ''(min-width: 200px)'') \<and>
    sortCSSmq codeUnitCompare (js ''(min-width: 100px)'') (js ''(min-width: 200px)'') \<noteq> 0) \<and>
   (\<not> priorityDecides (js ''print'') (js ''(min-width: 100px)'') \<and>
    unmeasurable (js ''print'') \<and> \<not> unmeasurable (js ''(min-width: 100px)'') \<and>
    sortCSSmq codeUnitCompare (js ''print'') (js ''(min-width: 100px)'') = 1 \<and>
    desktopFirst codeUnitCompare (js ''print'') (js ''(min-width: 100px)'') = 1) \<and>
   (\<not> priorityDecides (js ''(min-width: 100px)'') (js ''print'') \<and>
    \<not> unmeasurable (js ''(min-width: 100px)'') \<and> unmeasurable (js ''print'') \<and>
    sortCSSmq codeUnitCompare (js ''(min-width: 100px)'') (js ''print'') = - 1 \<and>
    desktopFirst codeUnitCompare (js ''(min-width: 100px)'') (js ''print'') = - 1) \<and>
   (bothUnmeasurable (js ''print'') (js ''tv'') \<and>
    codeUnitCompare (js ''print'') (js ''tv'') = - 1 \<and>
    \<not> (priorityDecides (js ''print'') (js ''tv'') \<or> tieBreakDecides (js ''print'') (js ''tv'') \<or>
       bothUnmeasurable (js ''print'') (js ''tv'') \<and> codeUnitCompare (js ''print'') (js ''tv'') = 0) \<and>
    sortCSSmq codeUnitCompare (js ''print'') (js ''tv'') = - 1 \<and>
    desktopFirst codeUnitCompare (js ''print'') (js ''tv'') = - 1)"
proof -
  let ?min = "js ''(min-width: 100px)''" and ?min2 = "js ''(min-width: 200px)''" and ?max = "js ''(max-width: 200px)''"
  let ?em = "js ''(min-width: 1em)''" and ?px = "js ''(min-width: 16px)''"
  let ?print = "js ''print''" and ?tv = "js ''tv''"
  have m1: "\<not> unmeasurable ?min" unfolding unmeasurable_def length_min_100 by (rule measurable_100)
  have m2: "\<not> unmeasurable ?min2" unfolding unmeasurable_def length_min_200 by (rule measurable_200)
  have m3: "\<not> unmeasurable ?em" "\<not> unmeasurable ?px"
    unfolding unmeasurable_def length_min_1em length_min_16px by (simp_all add: maxValue_def)
  have u1: "unmeasurable ?print" unfolding unmeasurable_def length_print
    by (simp add: maxValue_def)
  have u2: "unmeasurable ?tv" unfolding unmeasurable_def length_tv
    by (simp add: maxValue_def)
  have p1: "priorityDecides ?min ?max"
    unfolding priorityDecides_def using class_min_100(1) class_max_200(2) by blast
  have p2: "\<not> priorityDecides ?em ?px"
    unfolding priorityDecides_def using class_min_1em class_min_16px by blast
  have p3: "\<not> priorityDecides ?min ?min2"
    unfolding priorityDecides_def using class_min_100 class_min_200 by blast
  have p4: "\<not> priorityDecides ?print ?min" "\<not> priorityDecides ?min ?print"
    unfolding priorityDecides_def using class_print by blast+
  have p5: "\<not> priorityDecides ?print ?tv"
    unfolding priorityDecides_def using class_print by blast
  have t2: "tieBreakDecides ?em ?px"
    unfolding tieBreakDecides_def jsGt_def length_min_1em length_min_16px
    using p2 m3 by simp
  have t5: "\<not> tieBreakDecides ?print ?tv"
    unfolding tieBreakDecides_def using u1 by blast
  have l3: "jsLt (getQueryLength ?min) (getQueryLength ?min2)"
    unfolding length_min_100 length_min_200 by simp
  have b5: "bothUnmeasurable ?print ?tv"
    unfolding bothUnmeasurable_def using p5 u1 u2 by blast
  have c2: "codeUnitCompare ?em ?px = 1"
    by (simp add: codeUnitCompare_def js_def)
  have c5: "codeUnitCompare ?print ?tv = - 1"
    by (simp add: codeUnitCompare_def js_def)
  have 1: "sortCSSmq codeUnitCompare ?min ?max = - desktopFirst codeUnitCompare ?min ?max"
    using mirror_branches [of codeUnitCompare ?min ?max] p1 by blast
  have 2: "sortCSSmq codeUnitCompare ?em ?px = - desktopFirst codeUnitCompare ?em ?px"
    using mirror_branches [of codeUnitCompare ?em ?px] t2 by blast
  have 3: "sortCSSmq codeUnitCompare ?min ?min2 = desktopFirst codeUnitCompare ?min ?min2 \<and>
      sortCSSmq codeUnitCompare ?min ?min2 \<noteq> 0"
    using mirror_branches [of codeUnitCompare ?min ?min2] p3 m1 m2 l3 by blast
  have 4: "sortCSSmq codeUnitCompare ?print ?min = 1 \<and> desktopFirst codeUnitCompare ?print ?min = 1"
    using mirror_branches [of codeUnitCompare ?print ?min] p4(1) u1 m1 by blast
  have 5: "sortCSSmq codeUnitCompare ?min ?print = - 1 \<and>
      desktopFirst codeUnitCompare ?min ?print = - 1"
    using mirror_branches [of codeUnitCompare ?min ?print] p4(2) u1 m1 by blast
  have n6: "\<not> (priorityDecides ?print ?tv \<or> tieBreakDecides ?print ?tv \<or>
      bothUnmeasurable ?print ?tv \<and> codeUnitCompare ?print ?tv = 0)"
    using p5 t5 c5 by simp
  have 6: "sortCSSmq codeUnitCompare ?print ?tv = - 1 \<and>
      desktopFirst codeUnitCompare ?print ?tv = - 1"
    using mirror_branches [of codeUnitCompare ?print ?tv] b5 c5 by simp
  from p1 1 t2 c2 2 p3 m1 m2 l3 3 p4 u1 4 5 b5 c5 n6 6 show ?thesis by blast
qed

text \<open>
  The claim as it is written fails on two minimum widths of different lengths: the length
  comparison decides, and both comparators return \<open>-1\<close>.
\<close>

theorem mirror_counterexample:
  "\<not> priorityDecides (js ''(min-width: 100px)'') (js ''(min-width: 200px)'') \<and>
   \<not> unmeasurable (js ''(min-width: 100px)'') \<and> \<not> unmeasurable (js ''(min-width: 200px)'') \<and>
   \<not> strictEq (getQueryLength (js ''(min-width: 100px)'')) (getQueryLength (js ''(min-width: 200px)'')) \<and>
   sortCSSmq codeUnitCompare (js ''(min-width: 100px)'') (js ''(min-width: 200px)'') = - 1 \<and>
   desktopFirst codeUnitCompare (js ''(min-width: 100px)'') (js ''(min-width: 200px)'') = - 1 \<and>
   sortCSSmq codeUnitCompare (js ''(min-width: 100px)'') (js ''(min-width: 200px)'') \<noteq>
     - desktopFirst codeUnitCompare (js ''(min-width: 100px)'') (js ''(min-width: 200px)'')"
  unfolding sortCSSmq_cases desktopFirst_cases priorityDecides_def unmeasurable_def jsGt_def
    length_min_100 length_min_200
  using class_min_100 class_min_200 by (simp add: maxValue_def)

text \<open>
  C2. A string in which no number is immediately followed by a unit has the sentinel
  length \<open>Number.MAX_VALUE\<close>. When the priority rule does not decide and exactly one of
  the two lengths is the sentinel, both comparators put the query with the sentinel length
  after the other one. (The comparators test the length, not the presence of a pair: by
  \<open>max_value_text\<close> a pair can have the sentinel length as well.)
\<close>

theorem sentinel_sorts_last:
  "(\<not> hasLengthPair s \<longrightarrow> getQueryLength s = Num maxValue) \<and>
   (\<not> priorityDecides a b \<and> \<not> unmeasurable a \<and> unmeasurable b \<longrightarrow>
      sortCSSmq lc a b = - 1 \<and> desktopFirst lc a b = - 1) \<and>
   (\<not> priorityDecides a b \<and> unmeasurable a \<and> \<not> unmeasurable b \<longrightarrow>
      sortCSSmq lc a b = 1 \<and> desktopFirst lc a b = 1)"
proof -
  have 1: "\<not> hasLengthPair s \<longrightarrow> getQueryLength s = Num maxValue"
    by (simp add: getQueryLength_def exec_length_None[symmetric])
  have 2: "\<not> priorityDecides a b \<and> \<not> unmeasurable a \<and> unmeasurable b \<longrightarrow>
      sortCSSmq lc a b = - 1 \<and> desktopFirst lc a b = - 1"
    unfolding sortCSSmq_cases desktopFirst_cases priorityDecides_def by simp
  have 3: "\<not> priorityDecides a b \<and> unmeasurable a \<and> \<not> unmeasurable b \<longrightarrow>
      sortCSSmq lc a b = 1 \<and> desktopFirst lc a b = 1"
    unfolding sortCSSmq_cases desktopFirst_cases priorityDecides_def by simp
  from 1 2 3 show ?thesis by (intro conjI)
qed

theorem sentinel_sorts_last_witness:
  "\<not> hasLengthPair (js ''print'') \<and> getQueryLength (js ''print'') = Num maxValue \<and>
   \<not> priorityDecides (js ''(min-width: 100px)'') (js ''print'') \<and>
   \<not> unmeasurable (js ''(min-width: 100px)'') \<and> unmeasurable (js ''print'') \<and>
   sortCSSmq codeUnitCompare (js ''(min-width: 100px)'') (js ''print'') = - 1 \<and>
   desktopFirst codeUnitCompare (js ''(min-width: 100px)'') (js ''print'') = - 1 \<and>
   \<not> priorityDecides (js ''print'') (js ''(min-width: 100px)'') \<and>
   sortCSSmq codeUnitCompare (js ''print'') (js ''(min-width: 100px)'') = 1 \<and>
   desktopFirst codeUnitCompare (js ''print'') (js ''(min-width: 100px)'') = 1"
proof -
  let ?a = "js ''(min-width: 100px)''" and ?p = "js ''print''"
  have n: "\<not> hasLengthPair ?p"
    using exec_print by (simp add: exec_length_None[symmetric])
  have p1: "\<not> priorityDecides ?a ?p" and p2: "\<not> priorityDecides ?p ?a"
    unfolding priorityDecides_def using class_min_100 class_print by simp_all
  have ua: "\<not> unmeasurable ?a" unfolding unmeasurable_def length_min_100 by (rule measurable_100)
  have up: "unmeasurable ?p" unfolding unmeasurable_def length_print by (simp add: maxValue_def)
  from sentinel_sorts_last [of ?p ?a ?p codeUnitCompare] n p1 ua up
  have 1: "getQueryLength ?p = Num maxValue \<and> sortCSSmq codeUnitCompare ?a ?p = - 1 \<and>
      desktopFirst codeUnitCompare ?a ?p = - 1" by blast
  from sentinel_sorts_last [of ?p ?p ?a codeUnitCompare] p2 ua up
  have 2: "sortCSSmq codeUnitCompare ?p ?a = 1 \<and> desktopFirst codeUnitCompare ?p ?a = 1" by blast
  from n p1 p2 ua up 1 2 show ?thesis by blast
qed

text \<open>
  Without the condition on the priority rule the claim fails: a maximum width in pixels is
  measurable, a minimum width in \<open>vw\<close> is not, and mobile-first puts the unmeasurable one
  first.
\<close>

theorem sentinel_counterexample:
  "hasLengthPair (js ''(max-width: 100px)'') \<and> \<not> unmeasurable (js ''(max-width: 100px)'') \<and>
   \<not> hasLengthPair (js ''(min-width: 50vw)'') \<and> unmeasurable (js ''(min-width: 50vw)'') \<and>
   sortCSSmq codeUnitCompare (js ''(max-width: 100px)'') (js ''(min-width: 50vw)'') = 1"
proof -
  let ?a = "js ''(max-width: 100px)''" and ?b = "js ''(min-width: 50vw)''"
  have 1: "hasLengthPair ?a" using exec_max_100 exec_length_None[of ?a] by simp
  have 2: "\<not> hasLengthPair ?b" using exec_min_50vw by (simp add: exec_length_None[symmetric])
  have 3: "\<not> unmeasurable ?a" unfolding unmeasurable_def length_max_100 by (rule measurable_100)
  have 4: "unmeasurable ?b" unfolding unmeasurable_def length_min_50vw by (simp add: maxValue_def)
  have 5: "sortCSSmq codeUnitCompare ?a ?b = 1"
    unfolding sortCSSmq_cases using class_max_100 class_min_50vw by simp
  from 1 2 3 4 5 show ?thesis by blast
qed

text \<open>
  C3. With a \<open>localeCompare\<close> that is antisymmetric, \<open>sortCSSmq a b = - sortCSSmq b a\<close>
  holds exactly when the two priority checks do not both fire and, where the comparison
  reaches two measurable lengths that differ, \<open>a\<close> and \<open>b\<close> are both classified with a
  maximum bound or both without; and \<open>sortCSSmq a a = 0\<close> holds exactly when \<open>a\<close> is not
  classified with a minimum and a maximum bound at once.
\<close>

theorem antisymmetry_condition:
  assumes lc: "\<forall>x y. lc y x = - lc x y"
  shows "(sortCSSmq lc a b = - sortCSSmq lc b a \<longleftrightarrow>
            \<not> (minBound a \<and> maxBound b \<and> maxBound a \<and> minBound b) \<and>
            (\<not> priorityDecides a b \<and> \<not> unmeasurable a \<and> \<not> unmeasurable b \<and>
             \<not> strictEq (getQueryLength a) (getQueryLength b) \<longrightarrow> maxBound a = maxBound b)) \<and>
         (sortCSSmq lc a a = 0 \<longleftrightarrow> \<not> (minBound a \<and> maxBound a))"
proof
  have ab: "lc b a = - lc a b" using lc by blast
  have 1: "jsLt (getQueryLength a) (getQueryLength b) \<or> jsLt (getQueryLength b) (getQueryLength a) \<or>
      strictEq (getQueryLength a) (getQueryLength b)"
    using length_trichotomy[of a b] by blast
  have 2: "jsLt (getQueryLength a) (getQueryLength b) \<Longrightarrow> \<not> jsLt (getQueryLength b) (getQueryLength a)"
    by (rule jsLt_asym)
  have 3: "strictEq (getQueryLength a) (getQueryLength b) \<Longrightarrow>
      \<not> jsLt (getQueryLength a) (getQueryLength b) \<and> \<not> jsLt (getQueryLength b) (getQueryLength a)"
    by (rule strictEq_not_jsLt)
  have 4: "unmeasurable a \<Longrightarrow> unmeasurable b \<Longrightarrow> strictEq (getQueryLength a) (getQueryLength b)"
    unfolding unmeasurable_def by (rule strictEq_trans_length)
  show "sortCSSmq lc a b = - sortCSSmq lc b a \<longleftrightarrow>
            \<not> (minBound a \<and> maxBound b \<and> maxBound a \<and> minBound b) \<and>
            (\<not> priorityDecides a b \<and> \<not> unmeasurable a \<and> \<not> unmeasurable b \<and>
             \<not> strictEq (getQueryLength a) (getQueryLength b) \<longrightarrow> maxBound a = maxBound b)"
    unfolding sortCSSmq_cases[of lc a b] sortCSSmq_cases[of lc b a] priorityDecides_def jsGt_def ab
    by (rule antisymmetry_split[OF 1 2 3 4])
  have aa: "lc a a = 0" using lc by (metis add.inverse_neutral equal_neg_zero)
  have "\<not> jsLt (getQueryLength a) (getQueryLength a)" using jsLt_asym by blast
  then show "sortCSSmq lc a a = 0 \<longleftrightarrow> \<not> (minBound a \<and> maxBound a)"
    unfolding sortCSSmq_cases[of lc a a] jsGt_def aa by (simp only: if_False simp_thms split: if_splits) simp
qed

theorem antisymmetry_condition_witness:
  "(\<forall>x y. codeUnitCompare y x = - codeUnitCompare x y) \<and>
   \<not> priorityDecides (js ''(min-width: 100px)'') (js ''(min-width: 200px)'') \<and>
   \<not> unmeasurable (js ''(min-width: 100px)'') \<and> \<not> unmeasurable (js ''(min-width: 200px)'') \<and>
   \<not> strictEq (getQueryLength (js ''(min-width: 100px)'')) (getQueryLength (js ''(min-width: 200px)'')) \<and>
   (maxBound (js ''(min-width: 100px)'') \<longleftrightarrow> maxBound (js ''(min-width: 200px)'')) \<and>
   sortCSSmq codeUnitCompare (js ''(min-width: 100px)'') (js ''(min-width: 200px)'') =
     - sortCSSmq codeUnitCompare (js ''(min-width: 200px)'') (js ''(min-width: 100px)'') \<and>
   sortCSSmq codeUnitCompare (js ''(min-width: 100px)'') (js ''(min-width: 100px)'') = 0"
proof -
  let ?a = "js ''(min-width: 100px)''" and ?b = "js ''(min-width: 200px)''"
  have lc: "\<forall>x y. codeUnitCompare y x = - codeUnitCompare x y"
    using codeUnitCompare_antisym by blast
  have p: "\<not> priorityDecides ?a ?b"
    unfolding priorityDecides_def using class_min_100 class_min_200 by simp
  have ua: "\<not> unmeasurable ?a" unfolding unmeasurable_def length_min_100 by (rule measurable_100)
  have ub: "\<not> unmeasurable ?b" unfolding unmeasurable_def length_min_200 by (rule measurable_200)
  have ne: "\<not> strictEq (getQueryLength ?a) (getQueryLength ?b)"
    unfolding length_min_100 length_min_200 by simp
  have mx: "maxBound ?a \<longleftrightarrow> maxBound ?b" using class_min_100 class_min_200 by simp
  have mm: "\<not> (minBound ?a \<and> maxBound ?b \<and> maxBound ?a \<and> minBound ?b)"
    using class_min_100 by simp
  have aa: "\<not> (minBound ?a \<and> maxBound ?a)" using class_min_100 by simp
  from antisymmetry_condition [OF lc, of ?a ?b] mm mx aa
  have "sortCSSmq codeUnitCompare ?a ?b = - sortCSSmq codeUnitCompare ?b ?a \<and>
      sortCSSmq codeUnitCompare ?a ?a = 0" by blast
  with lc p ua ub ne mx show ?thesis by blast
qed

text \<open>
  The claim as it is written fails on a query with a minimum width and a maximum height:
  compared with itself it gives \<open>-1\<close>.
\<close>

theorem antisymmetry_counterexample:
  "sortCSSmq codeUnitCompare (js ''(min-width: 100px) and (max-height: 200px)'')
    (js ''(min-width: 100px) and (max-height: 200px)'') = - 1 \<and>
   sortCSSmq codeUnitCompare (js ''(min-width: 100px) and (max-height: 200px)'')
     (js ''(min-width: 100px) and (max-height: 200px)'') \<noteq> 0 \<and>
   sortCSSmq codeUnitCompare (js ''(min-width: 100px) and (max-height: 200px)'')
     (js ''(min-width: 100px) and (max-height: 200px)'') \<noteq>
     - sortCSSmq codeUnitCompare (js ''(min-width: 100px) and (max-height: 200px)'')
       (js ''(min-width: 100px) and (max-height: 200px)'')"
  unfolding sortCSSmq_cases using class_min_width_max_height by simp

text \<open>
  C4. A query with a minimum bound (\<open>isMinWidth\<close> or \<open>isMinHeight\<close>) compared with a query
  with a maximum bound (\<open>isMaxWidth\<close> or \<open>isMaxHeight\<close>): the mobile-first result is
  negative and the desktop-first result is positive, whatever \<open>localeCompare\<close> is.
\<close>

theorem min_bound_before_max_bound:
  assumes "isMinWidth A \<or> isMinHeight A" and "isMaxWidth B \<or> isMaxHeight B"
  shows "sortCSSmq localeCompare A B < 0 \<and> 0 < desktopFirst localeCompare A B"
  using assms by (simp add: sortCSSmq_def desktopFirst_def)

theorem min_bound_before_max_bound_witness:
  "(isMinWidth (js ''(min-width: 100px)'') \<or> isMinHeight (js ''(min-width: 100px)'')) \<and>
   (isMaxWidth (js ''(max-width: 200px)'') \<or> isMaxHeight (js ''(max-width: 200px)'')) \<and>
   sortCSSmq codeUnitCompare (js ''(min-width: 100px)'') (js ''(max-width: 200px)'') < 0 \<and>
   0 < desktopFirst codeUnitCompare (js ''(min-width: 100px)'') (js ''(max-width: 200px)'')"
proof -
  have a: "isMinWidth (js ''(min-width: 100px)'') \<or> isMinHeight (js ''(min-width: 100px)'')"
    using class_min_100(1) by blast
  have b: "isMaxWidth (js ''(max-width: 200px)'') \<or> isMaxHeight (js ''(max-width: 200px)'')"
    using class_max_200(2) by blast
  from min_bound_before_max_bound [OF a b, of codeUnitCompare] a b show ?thesis
    by blast
qed

text \<open>
  C5. The optional device part of the minimum in \<open>minMaxWidth\<close> is written \<open>-device-\<close>:
  the pattern does not match a range of device widths. That query is classified with a
  maximum width, and the query that replacing the device names gives is not; on the
  height axis, where the pattern has \<open>-device\<close>, the range of device heights and its
  replacement are classified alike.
\<close>

theorem device_prefix_divergence:
  "undevice (js ''(min-device-width: 320px) and (max-device-width: 767px)'') =
     js ''(min-width: 320px) and (max-width: 767px)'' \<and>
   isMaxWidth (js ''(min-device-width: 320px) and (max-device-width: 767px)'') \<and>
   \<not> isMaxWidth (undevice (js ''(min-device-width: 320px) and (max-device-width: 767px)'')) \<and>
   undevice (js ''(min-device-height: 320px) and (max-device-height: 767px)'') =
     js ''(min-height: 320px) and (max-height: 767px)'' \<and>
   \<not> isMaxHeight (js ''(min-device-height: 320px) and (max-device-height: 767px)'') \<and>
   \<not> isMaxHeight (undevice (js ''(min-device-height: 320px) and (max-device-height: 767px)''))"
  unfolding undevice_device_range undevice_device_height_range
  using class_device_range(2) class_width_range(2) class_device_height_range(2)
    class_height_range(2)
  by simp

text \<open>
  C6. On each axis: where the min...max pattern occurs in the query, the is-min predicate
  is true, and the is-max predicate is true exactly if the max...min pattern occurs as
  well; the same with the two patterns exchanged; where neither occurs, each predicate is
  the test of its single-sided pattern.
\<close>

theorem double_pattern_disambiguation:
  "(occurs minMaxWidth q \<longrightarrow> isMinWidth q \<and> (isMaxWidth q \<longleftrightarrow> occurs maxMinWidth q)) \<and>
   (occurs maxMinWidth q \<longrightarrow> isMaxWidth q \<and> (isMinWidth q \<longleftrightarrow> occurs minMaxWidth q)) \<and>
   (\<not> occurs minMaxWidth q \<and> \<not> occurs maxMinWidth q \<longrightarrow>
      (isMinWidth q \<longleftrightarrow> occurs minWidth q) \<and> (isMaxWidth q \<longleftrightarrow> occurs maxWidth q)) \<and>
   (occurs minMaxHeight q \<longrightarrow> isMinHeight q \<and> (isMaxHeight q \<longleftrightarrow> occurs maxMinHeight q)) \<and>
   (occurs maxMinHeight q \<longrightarrow> isMaxHeight q \<and> (isMinHeight q \<longleftrightarrow> occurs minMaxHeight q)) \<and>
   (\<not> occurs minMaxHeight q \<and> \<not> occurs maxMinHeight q \<longrightarrow>
      (isMinHeight q \<longleftrightarrow> occurs minHeight q) \<and> (isMaxHeight q \<longleftrightarrow> occurs maxHeight q))"
  unfolding test_iff[symmetric] classifiers by simp

theorem double_pattern_disambiguation_witness:
  "occurs minMaxWidth (js ''(min-width: 320px) and (max-width: 767px)'') \<and>
   \<not> occurs maxMinWidth (js ''(min-width: 320px) and (max-width: 767px)'') \<and>
   isMinWidth (js ''(min-width: 320px) and (max-width: 767px)'')
     \<and> \<not> isMaxWidth (js ''(min-width: 320px) and (max-width: 767px)'') \<and>
   occurs maxMinWidth (js ''(max-width: 767px) and (min-width: 320px)'') \<and>
   \<not> occurs minMaxWidth (js ''(max-width: 767px) and (min-width: 320px)'') \<and>
   isMaxWidth (js ''(max-width: 767px) and (min-width: 320px)'')
     \<and> \<not> isMinWidth (js ''(max-width: 767px) and (min-width: 320px)'') \<and>
   \<not> occurs minMaxWidth (js ''(min-width: 100px)'')
     \<and> \<not> occurs maxMinWidth (js ''(min-width: 100px)'') \<and>
   (isMinWidth (js ''(min-width: 100px)'') \<longleftrightarrow> occurs minWidth (js ''(min-width: 100px)'')) \<and>
   (isMaxWidth (js ''(min-width: 100px)'') \<longleftrightarrow> occurs maxWidth (js ''(min-width: 100px)'')) \<and>
   occurs minMaxHeight (js ''(min-height: 320px) and (max-height: 767px)'') \<and>
   \<not> occurs maxMinHeight (js ''(min-height: 320px) and (max-height: 767px)'') \<and>
   isMinHeight (js ''(min-height: 320px) and (max-height: 767px)'')
     \<and> \<not> isMaxHeight (js ''(min-height: 320px) and (max-height: 767px)'') \<and>
   occurs maxMinHeight (js ''(max-height: 767px) and (min-height: 320px)'') \<and>
   \<not> occurs minMaxHeight (js ''(max-height: 767px) and (min-height: 320px)'') \<and>
   isMaxHeight (js ''(max-height: 767px) and (min-height: 320px)'')
     \<and> \<not> isMinHeight (js ''(max-height: 767px) and (min-height: 320px)'') \<and>
   \<not> occurs minMaxHeight (js ''(min-height: 480px)'')
     \<and> \<not> occurs maxMinHeight (js ''(min-height: 480px)'') \<and>
   (isMinHeight (js ''(min-height: 480px)'') \<longleftrightarrow> occurs minHeight (js ''(min-height: 480px)'')) \<and>
   (isMaxHeight (js ''(min-height: 480px)'') \<longleftrightarrow> occurs maxHeight (js ''(min-height: 480px)''))"
proof -
  let ?w1 = "js ''(min-width: 320px) and (max-width: 767px)''"
  let ?w2 = "js ''(max-width: 767px) and (min-width: 320px)''"
  let ?w3 = "js ''(min-width: 100px)''"
  let ?h1 = "js ''(min-height: 320px) and (max-height: 767px)''"
  let ?h2 = "js ''(max-height: 767px) and (min-height: 320px)''"
  let ?h3 = "js ''(min-height: 480px)''"
  have w1: "occurs minMaxWidth ?w1" "\<not> occurs maxMinWidth ?w1"
    using test_width_range by (simp_all add: test_iff[symmetric])
  have w2: "occurs maxMinWidth ?w2" "\<not> occurs minMaxWidth ?w2"
    using test_width_range_rev by (simp_all add: test_iff[symmetric])
  have w3: "\<not> occurs minMaxWidth ?w3" "\<not> occurs maxMinWidth ?w3"
    using test_min_100 by (simp_all add: test_iff[symmetric])
  have h1: "occurs minMaxHeight ?h1" "\<not> occurs maxMinHeight ?h1"
    using test_height_range by (simp_all add: test_iff[symmetric])
  have h2: "occurs maxMinHeight ?h2" "\<not> occurs minMaxHeight ?h2"
    using test_height_range_rev by (simp_all add: test_iff[symmetric])
  have h3: "\<not> occurs minMaxHeight ?h3" "\<not> occurs maxMinHeight ?h3"
    using test_min_height by (simp_all add: test_iff[symmetric])
  have 1: "isMinWidth ?w1 \<and> \<not> isMaxWidth ?w1"
    using double_pattern_disambiguation [of ?w1] w1 by blast
  have 2: "isMaxWidth ?w2 \<and> \<not> isMinWidth ?w2"
    using double_pattern_disambiguation [of ?w2] w2 by blast
  have 3: "(isMinWidth ?w3 \<longleftrightarrow> occurs minWidth ?w3) \<and> (isMaxWidth ?w3 \<longleftrightarrow> occurs maxWidth ?w3)"
    using double_pattern_disambiguation [of ?w3] w3 by blast
  have 4: "isMinHeight ?h1 \<and> \<not> isMaxHeight ?h1"
    using double_pattern_disambiguation [of ?h1] h1 by blast
  have 5: "isMaxHeight ?h2 \<and> \<not> isMinHeight ?h2"
    using double_pattern_disambiguation [of ?h2] h2 by blast
  have 6: "(isMinHeight ?h3 \<longleftrightarrow> occurs minHeight ?h3) \<and> (isMaxHeight ?h3 \<longleftrightarrow> occurs maxHeight ?h3)"
    using double_pattern_disambiguation [of ?h3] h3 by blast
  from w1 w2 w3 h1 h2 h3 1 2 3 4 5 6 show ?thesis by (intro conjI) blast+
qed

text \<open>
  The claim as it is written fails on a list of two queries, a range and a minimum: the
  min...max pattern occurs, the max...min pattern occurs too, and the is-max predicate is
  true.
\<close>

theorem double_pattern_counterexample:
  "occurs minMaxWidth (js ''(min-width: 100px) and (max-width: 200px), (min-width: 300px)'') \<and>
   isMaxWidth (js ''(min-width: 100px) and (max-width: 200px), (min-width: 300px)'')"
  using test_min_max_min(2) class_min_max_min by (simp add: test_iff[symmetric])

text \<open>
  C7. When the priority rule does not decide, neither length is the sentinel and the
  lengths differ, one of them is larger; mobile-first returns \<open>1\<close> when the length of
  \<open>a\<close> is the larger one, unless \<open>a\<close> has a maximum bound, and then it returns \<open>-1\<close>; with
  the smaller length for \<open>a\<close> the two results are exchanged.
\<close>

theorem length_decides_order:
  assumes "\<not> (minBound a \<and> maxBound b)" and "\<not> (maxBound a \<and> minBound b)"
    and "\<not> unmeasurable a" and "\<not> unmeasurable b"
    and "\<not> strictEq (getQueryLength a) (getQueryLength b)"
  shows "(jsGt (getQueryLength a) (getQueryLength b) \<or> jsLt (getQueryLength a) (getQueryLength b)) \<and>
         (jsGt (getQueryLength a) (getQueryLength b) \<longrightarrow>
            sortCSSmq lc a b = (if maxBound a then - 1 else 1)) \<and>
         (jsLt (getQueryLength a) (getQueryLength b) \<longrightarrow>
            sortCSSmq lc a b = (if maxBound a then 1 else - 1))"
proof -
  from length_trichotomy[of a b] assms(5)
  have 1: "jsGt (getQueryLength a) (getQueryLength b) \<or> jsLt (getQueryLength a) (getQueryLength b)"
    unfolding jsGt_def by blast
  have 2: "jsLt (getQueryLength a) (getQueryLength b) \<Longrightarrow> \<not> jsGt (getQueryLength a) (getQueryLength b)"
    unfolding jsGt_def by (rule jsLt_asym)
  have s: "sortCSSmq lc a b =
      (if jsGt (getQueryLength a) (getQueryLength b) then (if maxBound a then - 1 else 1)
       else if jsLt (getQueryLength a) (getQueryLength b) then (if maxBound a then 1 else - 1)
       else lc a b)"
    unfolding sortCSSmq_cases using assms(1-4) by (simp only: if_False simp_thms)
  show ?thesis unfolding s using 1 2 by (simp only: if_True if_False simp_thms split: if_splits) blast
qed

theorem length_decides_order_witness:
  "\<not> (minBound (js ''(max-width: 200px)'') \<and> maxBound (js ''(max-width: 100px)'')) \<and>
   \<not> (maxBound (js ''(max-width: 200px)'') \<and> minBound (js ''(max-width: 100px)'')) \<and>
   \<not> unmeasurable (js ''(max-width: 200px)'') \<and> \<not> unmeasurable (js ''(max-width: 100px)'') \<and>
   \<not> strictEq (getQueryLength (js ''(max-width: 200px)'')) (getQueryLength (js ''(max-width: 100px)'')) \<and>
   jsGt (getQueryLength (js ''(max-width: 200px)'')) (getQueryLength (js ''(max-width: 100px)'')) \<and>
   maxBound (js ''(max-width: 200px)'') \<and>
   sortCSSmq codeUnitCompare (js ''(max-width: 200px)'') (js ''(max-width: 100px)'') = - 1"
proof -
  let ?a = "js ''(max-width: 200px)''" and ?b = "js ''(max-width: 100px)''"
  have 1: "\<not> (minBound ?a \<and> maxBound ?b)" using class_max_200 by simp
  have 2: "\<not> (maxBound ?a \<and> minBound ?b)" using class_max_100 by simp
  have 3: "\<not> unmeasurable ?a" unfolding unmeasurable_def length_max_200 by (rule measurable_200)
  have 4: "\<not> unmeasurable ?b" unfolding unmeasurable_def length_max_100 by (rule measurable_100)
  have 5: "\<not> strictEq (getQueryLength ?a) (getQueryLength ?b)"
    unfolding length_max_200 length_max_100 by simp
  have 6: "jsGt (getQueryLength ?a) (getQueryLength ?b)"
    unfolding jsGt_def length_max_200 length_max_100 by simp
  have 7: "maxBound ?a" using class_max_200 by simp
  from length_decides_order [OF 1 2 3 4 5, of codeUnitCompare] 6 7
  have "sortCSSmq codeUnitCompare ?a ?b = - 1" by simp
  with 1 2 3 4 5 6 7 show ?thesis by blast
qed

text \<open>
  C8. In a string that has a number immediately followed by a unit, there is a first such
  pair, and \<open>getQueryLength\<close> returns the number of that pair, as \<open>parseFloat\<close> reads it,
  times the factor of its unit (\<open>px\<close> 1, \<open>em\<close> and \<open>rem\<close> 16, \<open>ex\<close> 8.296875, \<open>ch\<close>
  8.8984375). The lengths of \<open>(min-width: 1em)\<close> and of \<open>(min-width: 16px)\<close> are both 16.
\<close>

theorem first_pair_times_factor:
  "(hasLengthPair s \<longrightarrow>
      (\<exists>i num unit. firstPair s i num unit) \<and>
      (\<forall>i num unit. firstPair s i num unit \<longrightarrow>
         getQueryLength s = Num (numMul (parseFloat num) (Fin (unitFactor unit))))) \<and>
   getQueryLength (js ''(min-width: 1em)'') = Num (Fin 16) \<and>
   getQueryLength (js ''(min-width: 16px)'') = Num (Fin 16)"
  using hasLengthPair_first [of s] getQueryLength_firstPair [of s] length_min_1em length_min_16px
  by blast

theorem first_pair_times_factor_witness:
  "hasLengthPair (js ''(min-width: 1em)'') \<and>
   (\<exists>i. firstPair (js ''(min-width: 1em)'') i (js ''1'') (js ''em'')) \<and>
   getQueryLength (js ''(min-width: 1em)'') =
     Num (numMul (parseFloat (js ''1'')) (Fin (unitFactor (js ''em''))))"
proof -
  let ?s = "js ''(min-width: 1em)''"
  have h: "hasLengthPair ?s" using exec_min_1em exec_length_None[of ?s] by simp
  from exec_length_Some [OF exec_min_1em] obtain i where f: "firstPair ?s i (js ''1'') (js ''em'')"
    by blast
  from first_pair_times_factor [of ?s] h f
  have "getQueryLength ?s = Num (numMul (parseFloat (js ''1'')) (Fin (unitFactor (js ''em''))))"
    by blast
  with h f show ?thesis by blast
qed

text \<open>
  C9. When neither priority check fires, the two lengths are not both the sentinel and
  they are not equal, mobile-first and desktop-first return the same value.
\<close>

theorem same_outside_priority_and_ties:
  assumes "\<not> (minBound a \<and> maxBound b)" and "\<not> (maxBound a \<and> minBound b)"
    and "\<not> (unmeasurable a \<and> unmeasurable b)"
    and "\<not> strictEq (getQueryLength a) (getQueryLength b)"
  shows "sortCSSmq lc a b = desktopFirst lc a b"
proof -
  from length_trichotomy[of a b] assms(4)
  have "jsGt (getQueryLength a) (getQueryLength b) \<or> jsLt (getQueryLength a) (getQueryLength b)"
    unfolding jsGt_def by blast
  then show ?thesis unfolding sortCSSmq_cases desktopFirst_cases
    using assms(1-3) by (rule same_split)
qed

theorem same_outside_priority_and_ties_witness:
  "\<not> (minBound (js ''(min-width: 100px)'') \<and> maxBound (js ''(min-width: 200px)'')) \<and>
   \<not> (maxBound (js ''(min-width: 100px)'') \<and> minBound (js ''(min-width: 200px)'')) \<and>
   \<not> (unmeasurable (js ''(min-width: 100px)'') \<and> unmeasurable (js ''(min-width: 200px)'')) \<and>
   \<not> strictEq (getQueryLength (js ''(min-width: 100px)'')) (getQueryLength (js ''(min-width: 200px)'')) \<and>
   sortCSSmq codeUnitCompare (js ''(min-width: 100px)'') (js ''(min-width: 200px)'') =
     desktopFirst codeUnitCompare (js ''(min-width: 100px)'') (js ''(min-width: 200px)'')"
proof -
  let ?a = "js ''(min-width: 100px)''" and ?b = "js ''(min-width: 200px)''"
  have 1: "\<not> (minBound ?a \<and> maxBound ?b)" using class_min_200 by simp
  have 2: "\<not> (maxBound ?a \<and> minBound ?b)" using class_min_100 by simp
  have 3: "\<not> (unmeasurable ?a \<and> unmeasurable ?b)"
    unfolding unmeasurable_def length_min_100 using measurable_100 by simp
  have 4: "\<not> strictEq (getQueryLength ?a) (getQueryLength ?b)"
    unfolding length_min_100 length_min_200 by simp
  from same_outside_priority_and_ties [OF 1 2 3 4, of codeUnitCompare] 1 2 3 4
  show ?thesis by blast
qed

text \<open>
  C10. A query that is classified both with a minimum bound and with a maximum bound,
  compared with itself: the first priority check fires, mobile-first returns \<open>-1\<close> and
  desktop-first returns \<open>1\<close>, not \<open>0\<close>.
\<close>

theorem both_bounds_self_compare:
  assumes "isMinWidth a \<or> isMinHeight a" and "isMaxWidth a \<or> isMaxHeight a"
  shows "sortCSSmq localeCompare a a = - 1 \<and> desktopFirst localeCompare a a = 1"
  using assms by (simp add: sortCSSmq_def desktopFirst_def)

theorem both_bounds_self_compare_witness:
  "(isMinWidth (js ''(min-width: 100px) and (max-height: 200px)'')
    \<or> isMinHeight (js ''(min-width: 100px) and (max-height: 200px)'')) \<and>
   (isMaxWidth (js ''(min-width: 100px) and (max-height: 200px)'')
     \<or> isMaxHeight (js ''(min-width: 100px) and (max-height: 200px)'')) \<and>
   sortCSSmq codeUnitCompare (js ''(min-width: 100px) and (max-height: 200px)'')
     (js ''(min-width: 100px) and (max-height: 200px)'') = - 1 \<and>
   desktopFirst codeUnitCompare (js ''(min-width: 100px) and (max-height: 200px)'')
     (js ''(min-width: 100px) and (max-height: 200px)'') = 1"
proof -
  let ?a = "js ''(min-width: 100px) and (max-height: 200px)''"
  have a: "isMinWidth ?a \<or> isMinHeight ?a"
    using class_min_width_max_height by blast
  have b: "isMaxWidth ?a \<or> isMaxHeight ?a"
    using class_min_width_max_height by blast
  from both_bounds_self_compare [OF a b, of codeUnitCompare] a b show ?thesis
    by blast
qed

end
